theory Spec2Isabelle
  imports Complex_Main "HOL-Library.Word"
begin

section \<open>The Kafka sidecar: health evaluation, topology discovery, memory metrics\<close>

text \<open>
  A shallow embedding of the sidecar's Go packages \<open>health\<close>, \<open>discovery\<close> and
  \<open>metrics\<close>. Go's \<open>(value, error)\<close> results are sums: \<open>Inl\<close> carries the error,
  \<open>Inr\<close> the value. An error of type \<open>error\<close> whose only use is its message
  (\<open>err.Error()\<close>) is the message string. Go strings are byte strings, here
  \<open>string\<close> (a list of 8-bit characters). \<open>int32\<close> is a 32-bit word, read as
  signed by \<open>sint\<close>; \<open>uint64\<close> is a 64-bit word, read by \<open>unat\<close>.
  Logging (\<open>slog\<close>) and the deadlines of \<open>context.WithTimeout\<close> are not
  modelled: a call that times out is a call of the administrative client that
  returns an error.
\<close>

type_synonym int32 = "32 word"
type_synonym uint64 = "64 word"

subsection \<open>Package health: the data of the administrative client\<close>

text \<open>
  The types of the client library (\<open>kadm\<close>), with the fields the sidecar reads.
  A Go map is the list of its entries in the order an iteration visits them.
\<close>

record BrokerDetail =
  NodeID :: int32
  Host :: string
  Port :: int32

record PartitionDetail =
  Partition :: int32
  Replicas :: "int32 list"
  ISR :: "int32 list"

record TopicDetail =
  Partitions :: "(int32 \<times> PartitionDetail) list"

record Metadata =
  Brokers :: "BrokerDetail list"
  Controller :: int32
  Topics :: "(string \<times> TopicDetail) list"

record DescribedLogDirPartition =
  PBroker :: int32
  PDir :: string
  PTopic :: string
  PPartition :: int32
  IsFuture :: bool

record DescribedLogDir =
  DBroker :: int32
  Dir :: string
  DTopics :: "(string \<times> (int32 \<times> DescribedLogDirPartition) list) list"
  Err :: "string option"

type_synonym DescribedLogDirs = "(string \<times> DescribedLogDir) list"

text \<open>
  Every call of the administrative client is recorded in a log, which is the state
  the checks thread through. A client answers a call from the log of the calls made
  before it, so that a fake with call counters and a cluster whose state changes
  between two calls are both clients. \<open>CleanupCall\<close> is the release handle the
  client factory returns.
\<close>

datatype adm_call = MetadataCall | DescribeBrokerLogDirsCall int32 | CleanupCall

record KafkaAdminClient =
  MetadataFunc :: "adm_call list \<Rightarrow> string + Metadata"
  DescribeBrokerLogDirsFunc :: "adm_call list \<Rightarrow> int32 \<Rightarrow> string + DescribedLogDirs"

record SASLConfig =
  Enabled :: bool
  Mechanism :: string
  Username :: string
  Password :: string

record Checker =
  brokerID :: int32
  bootstrapServers :: "string list"
  saslConfig :: SASLConfig
  clientFactory :: "string + KafkaAdminClient"

record CheckResult =
  Healthy :: bool
  Message :: string

subsection \<open>Package health: the four checks\<close>

text \<open>The loop of \<open>BrokerInMetadata\<close> over \<open>metadata.Brokers\<close>.\<close>

fun broker_loop :: "int32 \<Rightarrow> BrokerDetail list \<Rightarrow> bool" where
  "broker_loop b [] = False"
| "broker_loop b (broker # rest) = (if NodeID broker = b then True else broker_loop b rest)"

definition BrokerInMetadata ::
  "Checker \<Rightarrow> KafkaAdminClient \<Rightarrow> adm_call list \<Rightarrow> (string + bool) \<times> adm_call list" where
  "BrokerInMetadata c adm calls =
     (case MetadataFunc adm calls of
        Inl err \<Rightarrow> (Inl (''failed to fetch metadata: '' @ err), calls @ [MetadataCall])
      | Inr metadata \<Rightarrow> (Inr (broker_loop (brokerID c) (Brokers metadata)), calls @ [MetadataCall]))"

definition ControllerElected ::
  "Checker \<Rightarrow> KafkaAdminClient \<Rightarrow> adm_call list \<Rightarrow> (string + bool) \<times> adm_call list" where
  "ControllerElected c adm calls =
     (case MetadataFunc adm calls of
        Inl err \<Rightarrow> (Inl (''failed to fetch metadata: '' @ err), calls @ [MetadataCall])
      | Inr metadata \<Rightarrow> (Inr (0 \<le> sint (Controller metadata)), calls @ [MetadataCall]))"

text \<open>
  The two inner loops of \<open>UnderReplicatedPartitions\<close> search a list of broker IDs
  and leave at the first hit (\<open>break\<close>).
\<close>

fun id_loop :: "int32 \<Rightarrow> int32 list \<Rightarrow> bool" where
  "id_loop b [] = False"
| "id_loop b (r # rest) = (if r = b then True else id_loop b rest)"

text \<open>
  The loop over the partitions of one topic and the loop over the topics, with the
  counter \<open>underReplicated\<close> passed along. The counter is a Go \<open>int\<close> (64 bits);
  it counts entries of maps held in memory and is modelled by \<open>int\<close>.
\<close>

fun partition_loop :: "int32 \<Rightarrow> (int32 \<times> PartitionDetail) list \<Rightarrow> int \<Rightarrow> int" where
  "partition_loop b [] underReplicated = underReplicated"
| "partition_loop b ((k, pd) # rest) underReplicated =
     (if \<not> id_loop b (Replicas pd) then partition_loop b rest underReplicated
      else if \<not> id_loop b (ISR pd) then partition_loop b rest (underReplicated + 1)
      else partition_loop b rest underReplicated)"

fun topic_loop :: "int32 \<Rightarrow> (string \<times> TopicDetail) list \<Rightarrow> int \<Rightarrow> int" where
  "topic_loop b [] underReplicated = underReplicated"
| "topic_loop b ((name, topic) # rest) underReplicated =
     topic_loop b rest (partition_loop b (Partitions topic) underReplicated)"

definition UnderReplicatedPartitions ::
  "Checker \<Rightarrow> KafkaAdminClient \<Rightarrow> adm_call list \<Rightarrow> (string + int) \<times> adm_call list" where
  "UnderReplicatedPartitions c adm calls =
     (case MetadataFunc adm calls of
        Inl err \<Rightarrow> (Inl (''failed to fetch metadata: '' @ err), calls @ [MetadataCall])
      | Inr metadata \<Rightarrow> (Inr (topic_loop (brokerID c) (Topics metadata) 0), calls @ [MetadataCall]))"

text \<open>
  \<open>DescribedLogDirs.Error\<close> of the client library returns the error of the first
  directory that has one, \<open>EachPartition\<close> calls its argument on every partition of
  every topic of every directory. \<open>LogDirsHealthy\<close> passes a closure that sets
  \<open>foundFuture\<close>; here the flag is passed along.
\<close>

fun Error :: "DescribedLogDirs \<Rightarrow> string option" where
  "Error [] = None"
| "Error ((path, d) # rest) = (case Err d of Some e \<Rightarrow> Some e | None \<Rightarrow> Error rest)"

fun each_partition :: "(int32 \<times> DescribedLogDirPartition) list \<Rightarrow> bool \<Rightarrow> bool" where
  "each_partition [] foundFuture = foundFuture"
| "each_partition ((k, p) # rest) foundFuture =
     each_partition rest (if IsFuture p then True else foundFuture)"

fun each_topic ::
  "(string \<times> (int32 \<times> DescribedLogDirPartition) list) list \<Rightarrow> bool \<Rightarrow> bool" where
  "each_topic [] foundFuture = foundFuture"
| "each_topic ((name, ps) # rest) foundFuture = each_topic rest (each_partition ps foundFuture)"

fun EachPartition :: "DescribedLogDirs \<Rightarrow> bool \<Rightarrow> bool" where
  "EachPartition [] foundFuture = foundFuture"
| "EachPartition ((path, d) # rest) foundFuture =
     EachPartition rest (each_topic (DTopics d) foundFuture)"

definition LogDirsHealthy ::
  "Checker \<Rightarrow> KafkaAdminClient \<Rightarrow> adm_call list \<Rightarrow> (string + bool) \<times> adm_call list" where
  "LogDirsHealthy c adm calls =
     (case DescribeBrokerLogDirsFunc adm calls (brokerID c) of
        Inl err \<Rightarrow>
          (Inl (''failed to describe log dirs: '' @ err),
           calls @ [DescribeBrokerLogDirsCall (brokerID c)])
      | Inr logDirs \<Rightarrow>
          (case Error logDirs of
             Some e \<Rightarrow> (Inr False, calls @ [DescribeBrokerLogDirsCall (brokerID c)])
           | None \<Rightarrow>
               (Inr (\<not> EachPartition logDirs False),
                calls @ [DescribeBrokerLogDirsCall (brokerID c)])))"

subsection \<open>Package health: readiness and liveness\<close>

text \<open>
  \<open>CheckReadiness\<close> asks the factory for a client, runs the checks on it from an
  empty call log, and releases the client on every path after that
  (\<open>defer cleanup()\<close>).
\<close>

definition readiness_checks ::
  "Checker \<Rightarrow> KafkaAdminClient \<Rightarrow> adm_call list \<Rightarrow> CheckResult \<times> adm_call list" where
  "readiness_checks c adm s0 =
     (case BrokerInMetadata c adm s0 of
        (Inl err, s1) \<Rightarrow> (\<lparr>Healthy = False, Message = err\<rparr>, s1)
      | (Inr brokerRegistered, s1) \<Rightarrow>
          if \<not> brokerRegistered
          then (\<lparr>Healthy = False, Message = ''broker not registered in cluster metadata''\<rparr>, s1)
          else
            (case ControllerElected c adm s1 of
               (Inl err, s2) \<Rightarrow> (\<lparr>Healthy = False, Message = err\<rparr>, s2)
             | (Inr controllerElected, s2) \<Rightarrow>
                 if \<not> controllerElected
                 then (\<lparr>Healthy = False, Message = ''no controller elected''\<rparr>, s2)
                 else
                   (case UnderReplicatedPartitions c adm s2 of
                      (Inl err, s3) \<Rightarrow> (\<lparr>Healthy = False, Message = err\<rparr>, s3)
                    | (Inr underReplicated, s3) \<Rightarrow>
                        if underReplicated > 0
                        then (\<lparr>Healthy = False,
                                Message = ''broker has under-replicated partitions''\<rparr>, s3)
                        else
                          (case LogDirsHealthy c adm s3 of
                             (Inl err, s4) \<Rightarrow> (\<lparr>Healthy = False, Message = err\<rparr>, s4)
                           | (Inr logDirsHealthy, s4) \<Rightarrow>
                               if \<not> logDirsHealthy
                               then (\<lparr>Healthy = False,
                                       Message = ''log directories unhealthy''\<rparr>, s4)
                               else (\<lparr>Healthy = True, Message = []\<rparr>, s4)))))"

definition CheckReadiness :: "Checker \<Rightarrow> CheckResult \<times> adm_call list" where
  "CheckReadiness c =
     (case clientFactory c of
        Inl err \<Rightarrow> (\<lparr>Healthy = False, Message = err\<rparr>, [])
      | Inr adm \<Rightarrow>
          (case readiness_checks c adm [] of (r, s) \<Rightarrow> (r, s @ [CleanupCall])))"

definition liveness_checks ::
  "Checker \<Rightarrow> KafkaAdminClient \<Rightarrow> adm_call list \<Rightarrow> CheckResult \<times> adm_call list" where
  "liveness_checks c adm s0 =
     (case BrokerInMetadata c adm s0 of
        (Inl err, s1) \<Rightarrow> (\<lparr>Healthy = False, Message = err\<rparr>, s1)
      | (Inr brokerFound, s1) \<Rightarrow>
          if \<not> brokerFound
          then (\<lparr>Healthy = False, Message = ''broker not found in cluster metadata''\<rparr>, s1)
          else (\<lparr>Healthy = True, Message = []\<rparr>, s1))"

definition CheckLiveness :: "Checker \<Rightarrow> CheckResult \<times> adm_call list" where
  "CheckLiveness c =
     (case clientFactory c of
        Inl err \<Rightarrow> (\<lparr>Healthy = False, Message = err\<rparr>, [])
      | Inr adm \<Rightarrow>
          (case liveness_checks c adm [] of (r, s) \<Rightarrow> (r, s @ [CleanupCall])))"

text \<open>
  The HTTP handler of \<open>/health/ready\<close> fills a \<open>ReadinessResponse\<close> as the checks
  pass and writes it with status 200 (\<open>web.ReturnResponse\<close>) or 503
  (\<open>web.ReturnResponseWithCode\<close>). The model returns the status code and the
  response written. Fields that share a name with a check carry the prefix \<open>R\<close>.
\<close>

record ReadinessResponse =
  Status :: string
  RBrokerID :: int32
  RBrokerRegistered :: bool
  RControllerElected :: bool
  RUnderReplicatedPartitions :: int
  RLogDirsHealthy :: bool
  ErrorMessage :: string

definition StatusOK :: nat where
  "StatusOK = 200"

definition StatusServiceUnavailable :: nat where
  "StatusServiceUnavailable = 503"

definition unhealthy :: "ReadinessResponse \<Rightarrow> string \<Rightarrow> nat \<times> ReadinessResponse" where
  "unhealthy response msg =
     (StatusServiceUnavailable, response\<lparr>Status := ''unhealthy'', ErrorMessage := msg\<rparr>)"

definition readiness_handler_checks ::
  "Checker \<Rightarrow> KafkaAdminClient \<Rightarrow> ReadinessResponse \<Rightarrow> adm_call list \<Rightarrow>
     (nat \<times> ReadinessResponse) \<times> adm_call list" where
  "readiness_handler_checks c adm response0 s0 =
     (case BrokerInMetadata c adm s0 of
        (Inl err, s1) \<Rightarrow> (unhealthy response0 err, s1)
      | (Inr brokerRegistered, s1) \<Rightarrow>
          let response1 = response0\<lparr>RBrokerRegistered := brokerRegistered\<rparr> in
          if \<not> brokerRegistered
          then (unhealthy response1 ''broker not registered in cluster metadata'', s1)
          else
            (case ControllerElected c adm s1 of
               (Inl err, s2) \<Rightarrow> (unhealthy response1 err, s2)
             | (Inr controllerElected, s2) \<Rightarrow>
                 let response2 = response1\<lparr>RControllerElected := controllerElected\<rparr> in
                 if \<not> controllerElected
                 then (unhealthy response2 ''no controller elected'', s2)
                 else
                   (case UnderReplicatedPartitions c adm s2 of
                      (Inl err, s3) \<Rightarrow> (unhealthy response2 err, s3)
                    | (Inr underReplicated, s3) \<Rightarrow>
                        let response3 =
                              response2\<lparr>RUnderReplicatedPartitions := underReplicated\<rparr> in
                        if underReplicated > 0
                        then (unhealthy response3 ''broker has under-replicated partitions'', s3)
                        else
                          (case LogDirsHealthy c adm s3 of
                             (Inl err, s4) \<Rightarrow> (unhealthy response3 err, s4)
                           | (Inr logDirsHealthy, s4) \<Rightarrow>
                               let response4 =
                                     response3\<lparr>RLogDirsHealthy := logDirsHealthy\<rparr> in
                               if \<not> logDirsHealthy
                               then (unhealthy response4
                                       ''log directories unhealthy (future partitions detected)'',
                                     s4)
                               else ((StatusOK, response4\<lparr>Status := ''healthy''\<rparr>), s4)))))"

definition ReadinessHandler :: "Checker \<Rightarrow> (nat \<times> ReadinessResponse) \<times> adm_call list" where
  "ReadinessHandler c =
     (let response =
            \<lparr>Status = [], RBrokerID = brokerID c, RBrokerRegistered = False,
             RControllerElected = False, RUnderReplicatedPartitions = 0,
             RLogDirsHealthy = False, ErrorMessage = []\<rparr>
      in case clientFactory c of
           Inl err \<Rightarrow> (unhealthy response err, [])
         | Inr adm \<Rightarrow>
             (case readiness_handler_checks c adm response [] of
                (r, s) \<Rightarrow> (r, s @ [CleanupCall])))"

subsection \<open>Package health: the SASL option\<close>

text \<open>
  \<open>strings.ToUpper\<close> of Go's standard library maps the letters \<open>a\<close> to \<open>z\<close> of a
  string of ASCII bytes to upper case and leaves its other bytes alone. A string with
  a byte above 127 is decoded as UTF-8 and mapped through the Unicode case tables,
  which are no part of the sidecar: that path is the parameter \<open>unicodeUpper\<close>.
\<close>

definition upper_ascii :: "char \<Rightarrow> char" where
  "upper_ascii c =
     (if 97 \<le> (of_char c :: nat) \<and> (of_char c :: nat) \<le> 122
      then char_of ((of_char c :: nat) - 32) else c)"

definition is_ascii :: "string \<Rightarrow> bool" where
  "is_ascii s = list_all (\<lambda>c. (of_char c :: nat) < 128) s"

definition ToUpper :: "(string \<Rightarrow> string) \<Rightarrow> string \<Rightarrow> string" where
  "ToUpper unicodeUpper s = (if is_ascii s then map upper_ascii s else unicodeUpper s)"

text \<open>The option \<open>kgo.SASL\<close> builds from a mechanism with its credentials.\<close>

datatype sasl_mechanism =
  PlainMechanism string string
| Sha256Mechanism string string
| Sha512Mechanism string string

datatype kgo_Opt = SASL sasl_mechanism

definition getSASLOpt :: "(string \<Rightarrow> string) \<Rightarrow> Checker \<Rightarrow> string + kgo_Opt" where
  "getSASLOpt unicodeUpper c =
     (let mechanism = ToUpper unicodeUpper (Mechanism (saslConfig c)) in
      if mechanism = ''PLAIN''
      then Inr (SASL (PlainMechanism (Username (saslConfig c)) (Password (saslConfig c))))
      else if mechanism = ''SCRAM-SHA-256''
      then Inr (SASL (Sha256Mechanism (Username (saslConfig c)) (Password (saslConfig c))))
      else if mechanism = ''SCRAM-SHA-512''
      then Inr (SASL (Sha512Mechanism (Username (saslConfig c)) (Password (saslConfig c))))
      else Inl (''unsupported SASL mechanism: '' @ mechanism @
                '' (supported: PLAIN, SCRAM-SHA-256, SCRAM-SHA-512)''))"

subsection \<open>Package discovery: the broker ID of a host name\<close>

text \<open>
  \<open>strconv.ParseUint\<close> and \<open>strconv.ParseInt\<close> of Go's standard library, at base 10.
  \<open>ParseUint\<close> reads digit by digit into a 64-bit accumulator; it leaves with a
  syntax error at the first byte that is no digit and with a range error as soon as
  the accumulator would pass \<open>maxVal = 2 ^ bitSize - 1\<close>. The accumulator is a
  natural number with the wrap-around of \<open>n + d\<close> written out.
\<close>

datatype num_error = ErrSyntax | ErrRange

definition is_digit :: "char \<Rightarrow> bool" where
  "is_digit c = (48 \<le> (of_char c :: nat) \<and> (of_char c :: nat) \<le> 57)"

definition digit_of :: "char \<Rightarrow> nat" where
  "digit_of c = (of_char c :: nat) - 48"

fun parse_uint_loop :: "string \<Rightarrow> nat \<Rightarrow> nat \<Rightarrow> num_error + nat" where
  "parse_uint_loop [] maxVal n = Inr n"
| "parse_uint_loop (c # cs) maxVal n =
     (if \<not> is_digit c then Inl ErrSyntax
      else if n \<ge> (2 ^ 64 - 1) div 10 + 1 then Inl ErrRange
      else let n10 = n * 10; n1 = (n10 + digit_of c) mod 2 ^ 64 in
           if n1 < n10 \<or> n1 > maxVal then Inl ErrRange
           else parse_uint_loop cs maxVal n1)"

definition ParseUint :: "string \<Rightarrow> nat \<Rightarrow> num_error + nat" where
  "ParseUint s bitSize =
     (if s = [] then Inl ErrSyntax else parse_uint_loop s (2 ^ bitSize - 1) 0)"

text \<open>
  \<open>ParseInt\<close> takes a leading sign off, parses the rest with \<open>ParseUint\<close> and
  checks the signed range. On a range error \<open>ParseUint\<close> returns \<open>maxVal\<close>, which
  \<open>ParseInt\<close> then finds out of range too.
\<close>

definition ParseInt :: "string \<Rightarrow> nat \<Rightarrow> num_error + int" where
  "ParseInt s bitSize =
     (if s = [] then Inl ErrSyntax
      else
        let neg = (hd s = CHR ''-'');
            s1 = (if hd s = CHR ''+'' \<or> hd s = CHR ''-'' then tl s else s);
            cutoff = 2 ^ (bitSize - 1)
        in case ParseUint s1 bitSize of
             Inl ErrSyntax \<Rightarrow> Inl ErrSyntax
           | Inl ErrRange \<Rightarrow> Inl ErrRange
           | Inr un \<Rightarrow>
               if \<not> neg \<and> un \<ge> cutoff then Inl ErrRange
               else if neg \<and> un > cutoff then Inl ErrRange
               else Inr (if neg then - int un else int un))"

text \<open>
  \<open>strings.LastIndex\<close> with a separator of one byte searches from the last byte
  down and returns \<open>-1\<close> when no byte matches.
\<close>

fun last_index_loop :: "string \<Rightarrow> char \<Rightarrow> nat \<Rightarrow> int" where
  "last_index_loop s c 0 = - 1"
| "last_index_loop s c (Suc i) = (if s ! i = c then int i else last_index_loop s c i)"

definition LastIndex :: "string \<Rightarrow> char \<Rightarrow> int" where
  "LastIndex s c = last_index_loop s c (length s)"

datatype discovery_error =
  NoHyphen string
| TrailingHyphen string
| ParseReplicaIndex string num_error

definition ParseBrokerIDFromHostname :: "string \<Rightarrow> discovery_error + int32" where
  "ParseBrokerIDFromHostname hostname =
     (let lastHyphen = LastIndex hostname (CHR ''-'') in
      if lastHyphen = - 1 then Inl (NoHyphen hostname)
      else if lastHyphen = int (length hostname) - 1 then Inl (TrailingHyphen hostname)
      else
        let indexStr = drop (nat (lastHyphen + 1)) hostname in
        case ParseInt indexStr 32 of
          Inl err \<Rightarrow> Inl (ParseReplicaIndex hostname err)
        | Inr index \<Rightarrow> Inr (word_of_int index))"

text \<open>
  What the specification calls a base-10 integer: an optional sign and one or more
  decimal digits, with the value the digits denote.
\<close>

definition decimal_value :: "string \<Rightarrow> nat" where
  "decimal_value ds = foldl (\<lambda>n c. 10 * n + digit_of c) 0 ds"

definition unsigned_part :: "string \<Rightarrow> string" where
  "unsigned_part s = (case s of [] \<Rightarrow> [] | c # cs \<Rightarrow> if c = CHR ''+'' \<or> c = CHR ''-'' then cs else s)"

definition is_base10_integer :: "string \<Rightarrow> bool" where
  "is_base10_integer s = (unsigned_part s \<noteq> [] \<and> list_all is_digit (unsigned_part s))"

definition base10_value :: "string \<Rightarrow> int" where
  "base10_value s =
     (case s of [] \<Rightarrow> 0
      | c # cs \<Rightarrow> if c = CHR ''-'' then - int (decimal_value cs)
                  else int (decimal_value (unsigned_part s)))"

subsection \<open>Package discovery: the bootstrap servers\<close>

text \<open>
  The verb \<open>%d\<close> of \<open>fmt.Sprintf\<close> writes a Go \<open>int\<close> in decimal, with a minus
  sign when it is negative; \<open>%s\<close> copies the string.
\<close>

function utoa :: "nat \<Rightarrow> string" where
  "utoa n = (if n < 10 then [''0123456789'' ! n] else utoa (n div 10) @ [''0123456789'' ! (n mod 10)])"
  by pat_completeness auto
termination
  by (relation "measure id") auto

declare utoa.simps [simp del]

definition itoa :: "int \<Rightarrow> string" where
  "itoa i = (if i < 0 then CHR ''-'' # utoa (nat (- i)) else utoa (nat i))"

definition Sprintf_replica :: "int \<Rightarrow> string \<Rightarrow> string \<Rightarrow> string \<Rightarrow> int \<Rightarrow> string" where
  "Sprintf_replica i workloadName location gvcName port =
     ''replica-'' @ itoa i @ ''.'' @ workloadName @ ''.'' @ location @ ''.'' @ gvcName @
     ''.cpln.local:'' @ itoa port"

text \<open>\<open>strings.Join\<close>: the first element, then the separator before every further one.\<close>

fun Join :: "string list \<Rightarrow> string \<Rightarrow> string" where
  "Join [] sep = []"
| "Join (e # es) sep = foldl (\<lambda>b s. b @ sep @ s) e es"

text \<open>
  The loop of \<open>BuildBootstrapServers\<close> fills the slice \<open>servers\<close> from index 0.
  \<open>replicaCount\<close> and \<open>port\<close> are Go \<open>int\<close>s; the loop counter stays below
  \<open>replicaCount\<close>, so no arithmetic wraps and they are modelled by \<open>int\<close>.
\<close>

function servers_loop ::
  "int \<Rightarrow> int \<Rightarrow> string \<Rightarrow> string \<Rightarrow> string \<Rightarrow> int \<Rightarrow> string list \<Rightarrow> string list" where
  "servers_loop i replicaCount workloadName location gvcName port servers =
     (if i < replicaCount
      then servers_loop (i + 1) replicaCount workloadName location gvcName port
             (servers[nat i := Sprintf_replica i workloadName location gvcName port])
      else servers)"
  by pat_completeness auto
termination
  by (relation "measure (\<lambda>(i, replicaCount, _). nat (replicaCount - i))") auto

declare servers_loop.simps [simp del]

text \<open>
  \<open>make([]string, n)\<close> goes through \<open>makeslice\<close> of the Go runtime. A string in a
  slice takes 16 bytes on a 64-bit platform. \<open>makeslice\<close> panics with
  \<open>makeslice: len out of range\<close> when \<open>n\<close> is negative, when \<open>16 * n\<close> does not
  fit 64 bits, or when it is more than \<open>maxAlloc\<close>, the largest allocation of the
  platform (\<open>2 ^ 48\<close> bytes on linux/amd64); \<open>maxAlloc\<close> is a parameter of the
  model. Otherwise the slice holds \<open>n\<close> empty strings. Whether the machine has the
  memory for a slice below that limit is not modelled.
\<close>

datatype runtime_panic = MakesliceLenOutOfRange

definition make_strings :: "nat \<Rightarrow> int \<Rightarrow> runtime_panic + string list" where
  "make_strings maxAlloc n =
     (if n < 0 \<or> 16 * nat n \<ge> 2 ^ 64 \<or> 16 * nat n > maxAlloc
      then Inl MakesliceLenOutOfRange
      else Inr (replicate (nat n) []))"

definition BuildBootstrapServers ::
  "nat \<Rightarrow> string \<Rightarrow> string \<Rightarrow> string \<Rightarrow> int \<Rightarrow> int \<Rightarrow> runtime_panic + string" where
  "BuildBootstrapServers maxAlloc workloadName location gvcName replicaCount port =
     (let replicaCount1 = (if replicaCount \<le> 0 then 1 else replicaCount) in
      case make_strings maxAlloc replicaCount1 of
        Inl p \<Rightarrow> Inl p
      | Inr servers \<Rightarrow>
          Inr (Join (servers_loop 0 replicaCount1 workloadName location gvcName port servers)
                 '',''))"

subsection \<open>Package metrics: reading the cgroup files\<close>

text \<open>
  White space is what \<open>unicode.IsSpace\<close> accepts, as the bytes of its UTF-8
  encoding: the six ASCII characters, U+0085, U+00A0, U+1680, U+2000 to U+200A,
  U+2028, U+2029, U+202F, U+205F and U+3000. \<open>space_width\<close> is the number of bytes
  of the white-space character a string begins with (0 when it begins with none),
  \<open>space_width_last\<close> that of the one it ends with.
\<close>

definition space_runes :: "nat list list" where
  "space_runes =
     [[9], [10], [11], [12], [13], [32], [194, 133], [194, 160], [225, 154, 128],
      [226, 128, 128], [226, 128, 129], [226, 128, 130], [226, 128, 131], [226, 128, 132],
      [226, 128, 133], [226, 128, 134], [226, 128, 135], [226, 128, 136], [226, 128, 137],
      [226, 128, 138], [226, 128, 168], [226, 128, 169], [226, 128, 175], [226, 129, 159],
      [227, 128, 128]]"

definition bytes_of :: "string \<Rightarrow> nat list" where
  "bytes_of s = map of_char s"

definition space_width :: "string \<Rightarrow> nat" where
  "space_width s =
     (case find (\<lambda>r. take (length r) (bytes_of s) = r) space_runes of
        None \<Rightarrow> 0 | Some r \<Rightarrow> length r)"

definition space_width_last :: "string \<Rightarrow> nat" where
  "space_width_last s =
     (case find (\<lambda>r. length r \<le> length s \<and> drop (length s - length r) (bytes_of s) = r)
             space_runes of
        None \<Rightarrow> 0 | Some r \<Rightarrow> length r)"

lemma space_runes_nonempty: "r \<in> set space_runes \<Longrightarrow> r \<noteq> []"
  by (auto simp: space_runes_def)

lemma space_width_less: "0 < space_width s \<Longrightarrow> length s - space_width s < length s"
proof -
  assume pos: "0 < space_width s"
  then obtain r where f: "find (\<lambda>r. take (length r) (bytes_of s) = r) space_runes = Some r"
    by (auto simp: space_width_def split: option.splits)
  then have "r \<in> set space_runes" and "take (length r) (bytes_of s) = r"
    by (auto simp: find_Some_iff)
  then have "bytes_of s \<noteq> []"
    using space_runes_nonempty by fastforce
  then have "s \<noteq> []"
    by (simp add: bytes_of_def)
  with pos show ?thesis by simp
qed

lemma space_width_last_less:
  "0 < space_width_last s \<Longrightarrow> length s - space_width_last s < length s"
proof -
  assume pos: "0 < space_width_last s"
  then obtain r where
    f: "find (\<lambda>r. length r \<le> length s \<and> drop (length s - length r) (bytes_of s) = r)
          space_runes = Some r"
    by (auto simp: space_width_last_def split: option.splits)
  then have "r \<in> set space_runes" and "length r \<le> length s"
    by (auto simp: find_Some_iff)
  then have "s \<noteq> []"
    using space_runes_nonempty by fastforce
  with pos show ?thesis by simp
qed

text \<open>\<open>strings.TrimSpace\<close> cuts the white space off both ends.\<close>

function trim_left :: "string \<Rightarrow> string" where
  "trim_left s = (if space_width s = 0 then s else trim_left (drop (space_width s) s))"
  by pat_completeness auto
termination
  by (relation "measure length") (auto simp: space_width_less)

function trim_right :: "string \<Rightarrow> string" where
  "trim_right s =
     (if space_width_last s = 0 then s else trim_right (take (length s - space_width_last s) s))"
  by pat_completeness auto
termination
  by (relation "measure length") (auto simp: space_width_last_less)

declare trim_left.simps [simp del]
declare trim_right.simps [simp del]

definition TrimSpace :: "string \<Rightarrow> string" where
  "TrimSpace s = trim_right (trim_left s)"

text \<open>
  \<open>strings.Fields\<close> splits a string around its runs of white space. \<open>skip\<close> counts
  the bytes still to pass of a white-space character of several bytes, \<open>cur\<close> is
  the field being read.
\<close>

fun fields_loop :: "string \<Rightarrow> nat \<Rightarrow> string \<Rightarrow> string list" where
  "fields_loop [] skip cur = (if cur = [] then [] else [cur])"
| "fields_loop (c # cs) skip cur =
     (if skip > 0 then fields_loop cs (skip - 1) cur
      else if space_width (c # cs) > 0
      then (if cur = [] then fields_loop cs (space_width (c # cs) - 1) []
            else cur # fields_loop cs (space_width (c # cs) - 1) [])
      else fields_loop cs 0 (cur @ [c]))"

definition Fields :: "string \<Rightarrow> string list" where
  "Fields s = fields_loop s 0 []"

text \<open>
  A \<open>bufio.Scanner\<close> with the default split function yields the lines of its input:
  a line ends at a newline or at the end of the input, an empty rest after the last
  newline is no line, and one carriage return at the end of a line is dropped. The
  scanner fails with \<open>ErrTooLong\<close> on a line that does not fit its buffer of 65536
  bytes.
\<close>

fun scan_lines_loop :: "string \<Rightarrow> string \<Rightarrow> string list" where
  "scan_lines_loop [] cur = (if cur = [] then [] else [cur])"
| "scan_lines_loop (c # cs) cur =
     (if c = CHR 0x0A then cur # scan_lines_loop cs [] else scan_lines_loop cs (cur @ [c]))"

definition dropCR :: "string \<Rightarrow> string" where
  "dropCR l = (if l \<noteq> [] \<and> last l = CHR 0x0D then butlast l else l)"

definition MaxScanTokenSize :: nat where
  "MaxScanTokenSize = 64 * 1024"

datatype io_error = PathError string | NumError num_error | ErrTooLong

text \<open>
  The file system is a function from a path to what reading the file gives: its
  content, or the message of the error of \<open>os.ReadFile\<close> and \<open>os.Open\<close>.
\<close>

type_synonym file_system = "string \<Rightarrow> string + string"

definition lookup0 :: "(string \<rightharpoonup> uint64) \<Rightarrow> string \<Rightarrow> uint64" where
  "lookup0 stats k = (case stats k of None \<Rightarrow> 0 | Some v \<Rightarrow> v)"

fun stat_loop :: "string list \<Rightarrow> (string \<rightharpoonup> uint64) \<Rightarrow> (string \<rightharpoonup> uint64)" where
  "stat_loop [] stats = stats"
| "stat_loop (line # rest) stats =
     (let fields = Fields line in
      if length fields \<noteq> 2 then stat_loop rest stats
      else case ParseUint (fields ! 1) 64 of
             Inl err \<Rightarrow> stat_loop rest stats
           | Inr v \<Rightarrow> stat_loop rest (stats(fields ! 0 \<mapsto> word_of_nat v)))"

text \<open>
  Both readers have a method \<open>readMemoryStat\<close>, with the same body; it is one
  function of the reader's base path here.
\<close>

definition readMemoryStat :: "file_system \<Rightarrow> string \<Rightarrow> io_error + (string \<rightharpoonup> uint64)" where
  "readMemoryStat fs basePath =
     (case fs (basePath @ ''/memory.stat'') of
        Inl err \<Rightarrow> Inl (PathError err)
      | Inr content \<Rightarrow>
          let raw = scan_lines_loop content [] in
          if list_ex (\<lambda>l. length l \<ge> MaxScanTokenSize) raw then Inl ErrTooLong
          else Inr (stat_loop (map dropCR raw) Map.empty))"

definition readUint64FromFile :: "file_system \<Rightarrow> string \<Rightarrow> io_error + uint64" where
  "readUint64FromFile fs path =
     (case fs path of
        Inl err \<Rightarrow> Inl (PathError err)
      | Inr data \<Rightarrow>
          let v = TrimSpace data in
          if v = ''max'' then Inr 0
          else case ParseUint v 64 of
                 Inl err \<Rightarrow> Inl (NumError err)
               | Inr n \<Rightarrow> Inr (word_of_nat n))"

subsection \<open>Package metrics: the two readers\<close>

text \<open>
  The two ratios are \<open>float64\<close> values. The arithmetic of \<open>float64\<close> enters in three
  places only: the zero value of a fresh struct, the conversion \<open>float64(x)\<close> of a
  \<open>uint64\<close> and the division. They are the parameters \<open>zero64\<close>, \<open>from_uint64\<close>
  and \<open>divide64\<close> of the readers.
\<close>

record 'f float64_ops =
  zero64 :: 'f
  from_uint64 :: "uint64 \<Rightarrow> 'f"
  divide64 :: "'f \<Rightarrow> 'f \<Rightarrow> 'f"

record 'f MemoryMetrics =
  Usage :: uint64
  Limit :: uint64
  RSS :: uint64
  InactiveFile :: uint64
  WorkingSet :: uint64
  OOMRatio :: 'f
  OOMFloorRatio :: 'f

record CgroupV1Reader =
  basePathV1 :: string

record CgroupV2Reader =
  basePathV2 :: string

text \<open>
  The part both readers end with: the derived values, from a struct whose fields
  \<open>Usage\<close>, \<open>Limit\<close>, \<open>RSS\<close> and \<open>InactiveFile\<close> are set and whose other fields
  still hold their zero values.
\<close>

definition new_metrics :: "'f float64_ops \<Rightarrow> 'f MemoryMetrics" where
  "new_metrics F =
     \<lparr>Usage = 0, Limit = 0, RSS = 0, InactiveFile = 0, WorkingSet = 0,
      OOMRatio = zero64 F, OOMFloorRatio = zero64 F\<rparr>"

definition ReadMemoryMetricsV1 ::
  "'f float64_ops \<Rightarrow> file_system \<Rightarrow> CgroupV1Reader \<Rightarrow> (string \<times> io_error) + 'f MemoryMetrics" where
  "ReadMemoryMetricsV1 F fs r =
     (let metrics = new_metrics F;
          usagePath = basePathV1 r @ ''/memory.usage_in_bytes'';
          limitPath = basePathV1 r @ ''/memory.limit_in_bytes''
      in case readUint64FromFile fs usagePath of
        Inl err \<Rightarrow> Inl (''failed to read memory usage: '', err)
      | Inr usage \<Rightarrow>
      let metrics = metrics\<lparr>Usage := usage\<rparr> in
      case readUint64FromFile fs limitPath of
        Inl err \<Rightarrow> Inl (''failed to read memory limit: '', err)
      | Inr limit \<Rightarrow>
      let metrics = metrics\<lparr>Limit := limit\<rparr> in
      case readMemoryStat fs (basePathV1 r) of
        Inl err \<Rightarrow> Inl (''failed to read memory stat: '', err)
      | Inr stats \<Rightarrow>
      let metrics = metrics\<lparr>RSS := lookup0 stats ''rss''\<rparr>;
          metrics = metrics\<lparr>InactiveFile := lookup0 stats ''inactive_file''\<rparr>;
          metrics =
            (if Usage metrics \<ge> InactiveFile metrics
             then metrics\<lparr>WorkingSet := Usage metrics - InactiveFile metrics\<rparr>
             else metrics);
          metrics =
            (if Limit metrics > 0
             then metrics
                    \<lparr>OOMRatio :=
                       divide64 F (from_uint64 F (WorkingSet metrics))
                         (from_uint64 F (Limit metrics)),
                     OOMFloorRatio :=
                       divide64 F (from_uint64 F (RSS metrics)) (from_uint64 F (Limit metrics))\<rparr>
             else metrics)
      in Inr metrics)"

definition ReadMemoryMetricsV2 ::
  "'f float64_ops \<Rightarrow> file_system \<Rightarrow> CgroupV2Reader \<Rightarrow> (string \<times> io_error) + 'f MemoryMetrics" where
  "ReadMemoryMetricsV2 F fs r =
     (let metrics = new_metrics F;
          usagePath = basePathV2 r @ ''/memory.current'';
          limitPath = basePathV2 r @ ''/memory.max''
      in case readUint64FromFile fs usagePath of
        Inl err \<Rightarrow> Inl (''failed to read memory.current: '', err)
      | Inr usage \<Rightarrow>
      let metrics = metrics\<lparr>Usage := usage\<rparr> in
      case readUint64FromFile fs limitPath of
        Inl err \<Rightarrow> Inl (''failed to read memory.max: '', err)
      | Inr limit \<Rightarrow>
      let metrics = metrics\<lparr>Limit := limit\<rparr> in
      case readMemoryStat fs (basePathV2 r) of
        Inl err \<Rightarrow> Inl (''failed to read memory.stat: '', err)
      | Inr stats \<Rightarrow>
      let metrics = metrics\<lparr>RSS := lookup0 stats ''anon''\<rparr>;
          metrics = metrics\<lparr>InactiveFile := lookup0 stats ''inactive_file''\<rparr>;
          metrics =
            (if Usage metrics \<ge> InactiveFile metrics
             then metrics\<lparr>WorkingSet := Usage metrics - InactiveFile metrics\<rparr>
             else metrics);
          metrics =
            (if Limit metrics > 0
             then metrics
                    \<lparr>OOMRatio :=
                       divide64 F (from_uint64 F (WorkingSet metrics))
                         (from_uint64 F (Limit metrics)),
                     OOMFloorRatio :=
                       divide64 F (from_uint64 F (RSS metrics)) (from_uint64 F (Limit metrics))\<rparr>
             else metrics)
      in Inr metrics)"


subsection \<open>The properties in the words of the specification\<close>

text \<open>
  The partitions of a snapshot across all its topics, what it is for a broker to be
  under-replicated on a partition, and the number of such partitions; the partition
  placements of a set of log directories across all directories, and the two
  conditions that make the directories unhealthy.
\<close>

definition all_partitions :: "Metadata \<Rightarrow> PartitionDetail list" where
  "all_partitions md = concat (map (\<lambda>(name, topic). map snd (Partitions topic)) (Topics md))"

definition is_under_replicated :: "int32 \<Rightarrow> PartitionDetail \<Rightarrow> bool" where
  "is_under_replicated b pd = (b \<in> set (Replicas pd) \<and> b \<notin> set (ISR pd))"

definition under_replicated_count :: "int32 \<Rightarrow> Metadata \<Rightarrow> nat" where
  "under_replicated_count b md = length (filter (is_under_replicated b) (all_partitions md))"

definition all_placements :: "DescribedLogDirs \<Rightarrow> DescribedLogDirPartition list" where
  "all_placements dirs =
     concat (map (\<lambda>(path, d). concat (map (\<lambda>(name, ps). map snd ps) (DTopics d))) dirs)"

definition has_future_placement :: "DescribedLogDirs \<Rightarrow> bool" where
  "has_future_placement dirs = list_ex IsFuture (all_placements dirs)"

definition has_directory_error :: "DescribedLogDirs \<Rightarrow> bool" where
  "has_directory_error dirs = list_ex (\<lambda>(path, d). Err d \<noteq> None) dirs"

text \<open>
  A list of strings joined with commas, without a separator after the last one.
\<close>

fun comma_joined :: "string list \<Rightarrow> string" where
  "comma_joined [] = []"
| "comma_joined [x] = x"
| "comma_joined (x # y # ys) = x @ '','' @ comma_joined (y # ys)"

text \<open>
  The slice of \<open>max replicaCount 1\<close> strings, 16 bytes each, is within what the
  runtime allocates.
\<close>

definition within_allocation :: "nat \<Rightarrow> int \<Rightarrow> bool" where
  "within_allocation maxAlloc replicaCount =
     (16 * nat (max replicaCount 1) < 2 ^ 64 \<and> 16 * nat (max replicaCount 1) \<le> maxAlloc)"

subsection \<open>Fixtures of the test suite\<close>

text \<open>
  The fake client of the tests answers every call with the same snapshot and the
  same description of the log directories; the fixtures are the snapshots and
  directories of \<open>TestCheckReadiness\<close>, \<open>TestUnderReplicatedPartitions\<close> and
  \<open>TestLogDirsHealthy\<close>.
\<close>

definition fake_client :: "Metadata \<Rightarrow> string + DescribedLogDirs \<Rightarrow> KafkaAdminClient" where
  "fake_client md dres =
     \<lparr>MetadataFunc = (\<lambda>h. Inr md), DescribeBrokerLogDirsFunc = (\<lambda>h b. dres)\<rparr>"

definition fake_checker :: "int32 \<Rightarrow> KafkaAdminClient \<Rightarrow> Checker" where
  "fake_checker b adm =
     \<lparr>brokerID = b, bootstrapServers = [''localhost:9092''],
      saslConfig = \<lparr>Enabled = False, Mechanism = [], Username = [], Password = []\<rparr>,
      clientFactory = Inr adm\<rparr>"

definition broker_detail :: "int32 \<Rightarrow> BrokerDetail" where
  "broker_detail b = \<lparr>NodeID = b, Host = [], Port = 0\<rparr>"

definition one_broker_metadata :: Metadata where
  "one_broker_metadata = \<lparr>Brokers = [broker_detail 0], Controller = 0, Topics = []\<rparr>"

definition two_topics_metadata :: Metadata where
  "two_topics_metadata =
     \<lparr>Brokers = [broker_detail 0], Controller = 0,
      Topics =
        [(''topic1'', \<lparr>Partitions = [(0, \<lparr>Partition = 0, Replicas = [0, 1], ISR = [1]\<rparr>)]\<rparr>),
         (''topic2'', \<lparr>Partitions = [(0, \<lparr>Partition = 0, Replicas = [0, 2], ISR = [2]\<rparr>)]\<rparr>)]\<rparr>"

definition future_log_dirs :: DescribedLogDirs where
  "future_log_dirs =
     [(''/var/kafka-logs'',
       \<lparr>DBroker = 0, Dir = ''/var/kafka-logs'',
        DTopics =
          [(''test'',
            [(0, \<lparr>PBroker = 0, PDir = ''/var/kafka-logs'', PTopic = ''test'', PPartition = 0,
                  IsFuture = True\<rparr>)])],
        Err = None\<rparr>)]"

definition failed_log_dirs :: DescribedLogDirs where
  "failed_log_dirs =
     [(''/var/kafka-logs'',
       \<lparr>DBroker = 0, Dir = ''/var/kafka-logs'', DTopics = [],
        Err = Some ''kafka storage error''\<rparr>)]"

text \<open>The checker of \<open>TestGetSASLOpt\<close>, with SASL enabled and the mechanism of the test case.\<close>

definition sasl_checker :: "string \<Rightarrow> Checker" where
  "sasl_checker m =
     \<lparr>brokerID = 0, bootstrapServers = [''localhost:9092''],
      saslConfig = \<lparr>Enabled = True, Mechanism = m, Username = ''user'', Password = ''pass''\<rparr>,
      clientFactory = Inl []\<rparr>"

text \<open>
  Files of a cgroup directory, as the tests of the readers write them, and float
  operations that divide exactly, to evaluate the readers on them.
\<close>

definition files :: "(string \<times> string) list \<Rightarrow> file_system" where
  "files fl path =
     (case map_of fl path of
        None \<Rightarrow> Inl ''no such file or directory''
      | Some content \<Rightarrow> Inr content)"

definition exact_ops :: "real float64_ops" where
  "exact_ops = \<lparr>zero64 = 0, from_uint64 = (\<lambda>w. real (unat w)), divide64 = (\<lambda>a b. a / b)\<rparr>"

definition v1_files :: file_system where
  "v1_files =
     files
       [(''/sys/fs/cgroup/memory/memory.usage_in_bytes'', ''104857600\<newline>''),
        (''/sys/fs/cgroup/memory/memory.limit_in_bytes'', ''268435456\<newline>''),
        (''/sys/fs/cgroup/memory/memory.stat'',
         ''rss 52428800\<newline>inactive_file 10485760\<newline>'')]"

definition v2_files :: file_system where
  "v2_files =
     files
       [(''/sys/fs/cgroup/memory.current'', ''104857600\<newline>''),
        (''/sys/fs/cgroup/memory.max'', ''268435456\<newline>''),
        (''/sys/fs/cgroup/memory.stat'',
         ''anon 52428800\<newline>inactive_file 10485760\<newline>'')]"

definition v2_unlimited_files :: file_system where
  "v2_unlimited_files =
     files
       [(''/sys/fs/cgroup/memory.current'', ''50\<newline>''),
        (''/sys/fs/cgroup/memory.max'', ''max\<newline>''),
        (''/sys/fs/cgroup/memory.stat'', ''anon 70\<newline>inactive_file 100\<newline>'')]"

section \<open>Properties\<close>

subsection \<open>The loops of the checks\<close>

lemma broker_loop_iff: "broker_loop b bs = (b \<in> NodeID ` set bs)"
  by (induction bs) auto

lemma id_loop_iff: "id_loop b xs = (b \<in> set xs)"
  by (induction xs) auto

lemma partition_loop_count:
  "partition_loop b ps n = n + int (length (filter (is_under_replicated b) (map snd ps)))"
  by (induction ps arbitrary: n) (auto simp: id_loop_iff is_under_replicated_def)

lemma topic_loop_count:
  "topic_loop b ts n =
     n + int (length (filter (is_under_replicated b)
                (concat (map (\<lambda>(name, topic). map snd (Partitions topic)) ts))))"
  by (induction ts arbitrary: n) (auto simp: partition_loop_count)

lemma Error_None_iff: "(Error dirs = None) = (\<not> has_directory_error dirs)"
  by (induction dirs) (auto simp: has_directory_error_def split: option.splits)

lemma each_partition_or: "each_partition ps f = (f \<or> list_ex IsFuture (map snd ps))"
proof (induction ps arbitrary: f)
  case Nil
  show ?case by simp
next
  case (Cons a ps)
  obtain k p where a: "a = (k, p)" by (cases a)
  show ?case
    unfolding a each_partition.simps Cons.IH by (cases "IsFuture p") simp_all
qed

lemma each_topic_or:
  "each_topic ts f = (f \<or> list_ex IsFuture (concat (map (\<lambda>(name, ps). map snd ps) ts)))"
proof (induction ts arbitrary: f)
  case Nil
  show ?case by simp
next
  case (Cons a ts)
  obtain name ps where a: "a = (name, ps)" by (cases a)
  show ?case
    unfolding a each_topic.simps Cons.IH each_partition_or by auto
qed

lemma EachPartition_or: "EachPartition dirs f = (f \<or> has_future_placement dirs)"
proof (induction dirs arbitrary: f)
  case Nil
  show ?case by (simp add: has_future_placement_def all_placements_def)
next
  case (Cons a dirs)
  obtain path d where a: "a = (path, d)" by (cases a)
  show ?case
    unfolding a EachPartition.simps Cons.IH each_topic_or
    by (auto simp: has_future_placement_def all_placements_def)
qed

lemma BrokerInMetadata_result:
  "MetadataFunc adm h = Inr md \<Longrightarrow>
   BrokerInMetadata c adm h = (Inr (brokerID c \<in> NodeID ` set (Brokers md)), h @ [MetadataCall])"
  by (simp add: BrokerInMetadata_def broker_loop_iff)

lemma ControllerElected_result:
  "MetadataFunc adm h = Inr md \<Longrightarrow>
   ControllerElected c adm h = (Inr (0 \<le> sint (Controller md)), h @ [MetadataCall])"
  by (simp add: ControllerElected_def)

lemma UnderReplicatedPartitions_result:
  "MetadataFunc adm h = Inr md \<Longrightarrow>
   UnderReplicatedPartitions c adm h =
     (Inr (int (under_replicated_count (brokerID c) md)), h @ [MetadataCall])"
  by (simp add: UnderReplicatedPartitions_def topic_loop_count under_replicated_count_def
        all_partitions_def)

lemma LogDirsHealthy_result:
  "DescribeBrokerLogDirsFunc adm h (brokerID c) = Inr dirs \<Longrightarrow>
   LogDirsHealthy c adm h =
     (Inr (\<not> (has_directory_error dirs \<or> has_future_placement dirs)),
      h @ [DescribeBrokerLogDirsCall (brokerID c)])"
  using Error_None_iff [of dirs]
  by (auto simp: LogDirsHealthy_def EachPartition_or split: option.splits)

lemma LogDirsHealthy_error:
  "DescribeBrokerLogDirsFunc adm h (brokerID c) = Inl e \<Longrightarrow>
   LogDirsHealthy c adm h =
     (Inl (''failed to describe log dirs: '' @ e), h @ [DescribeBrokerLogDirsCall (brokerID c)])"
  by (simp add: LogDirsHealthy_def)

subsection \<open>The readiness evaluation\<close>

text \<open>
  Claim C1. With a client from the factory, \<open>CheckReadiness\<close> runs registration,
  controller election, replica synchronisation and log-directory health in this
  order and stops at the first check that fails. When the first metadata snapshot
  does not hold the broker ID, the verdict is unhealthy with the message
  \<open>broker not registered in cluster metadata\<close> and the client has seen one
  metadata call and the release, nothing else: none of the later checks, each of
  which calls the client, has run. When the client answers the three metadata calls
  with the same snapshot, the verdict and the calls made are those of the first
  failing check in that order.
\<close>

theorem CheckReadiness_order:
  assumes f: "clientFactory c = Inr adm"
  shows
   "(MetadataFunc adm [] = Inr md \<and> brokerID c \<notin> NodeID ` set (Brokers md) \<longrightarrow>
      CheckReadiness c =
        (\<lparr>Healthy = False, Message = ''broker not registered in cluster metadata''\<rparr>,
         [MetadataCall, CleanupCall])) \<and>
   (MetadataFunc adm [] = Inr md \<and> MetadataFunc adm [MetadataCall] = Inr md \<and>
    MetadataFunc adm [MetadataCall, MetadataCall] = Inr md \<and>
    DescribeBrokerLogDirsFunc adm [MetadataCall, MetadataCall, MetadataCall] (brokerID c) = dres \<longrightarrow>
      CheckReadiness c =
        (if brokerID c \<notin> NodeID ` set (Brokers md)
         then (\<lparr>Healthy = False, Message = ''broker not registered in cluster metadata''\<rparr>,
               [MetadataCall, CleanupCall])
         else if sint (Controller md) < 0
         then (\<lparr>Healthy = False, Message = ''no controller elected''\<rparr>,
               [MetadataCall, MetadataCall, CleanupCall])
         else if 0 < under_replicated_count (brokerID c) md
         then (\<lparr>Healthy = False, Message = ''broker has under-replicated partitions''\<rparr>,
               [MetadataCall, MetadataCall, MetadataCall, CleanupCall])
         else
           (case dres of
              Inl e \<Rightarrow> \<lparr>Healthy = False, Message = ''failed to describe log dirs: '' @ e\<rparr>
            | Inr dirs \<Rightarrow>
                if has_directory_error dirs \<or> has_future_placement dirs
                then \<lparr>Healthy = False, Message = ''log directories unhealthy''\<rparr>
                else \<lparr>Healthy = True, Message = []\<rparr>,
            [MetadataCall, MetadataCall, MetadataCall,
             DescribeBrokerLogDirsCall (brokerID c), CleanupCall])))"
    (is "(?P1 \<longrightarrow> ?Q1) \<and> (?P2 \<longrightarrow> ?Q2)")
proof (intro conjI impI)
  assume ?P1
  with f show ?Q1
    by (simp add: CheckReadiness_def readiness_checks_def BrokerInMetadata_result)
next
  assume h: ?P2
  show ?Q2
  proof (cases dres)
    case (Inl e)
    with h f show ?thesis
      by (simp add: CheckReadiness_def readiness_checks_def BrokerInMetadata_result
            ControllerElected_result UnderReplicatedPartitions_result LogDirsHealthy_error
            not_le)
  next
    case (Inr dirs)
    with h f show ?thesis
      by (simp add: CheckReadiness_def readiness_checks_def BrokerInMetadata_result
            ControllerElected_result UnderReplicatedPartitions_result LogDirsHealthy_result
            not_le)
  qed
qed

theorem CheckReadiness_order_witness:
  "CheckReadiness (fake_checker 5 (fake_client one_broker_metadata (Inr []))) =
     (\<lparr>Healthy = False, Message = ''broker not registered in cluster metadata''\<rparr>,
      [MetadataCall, CleanupCall]) \<and>
   CheckReadiness (fake_checker 0 (fake_client two_topics_metadata (Inr []))) =
     (\<lparr>Healthy = False, Message = ''broker has under-replicated partitions''\<rparr>,
      [MetadataCall, MetadataCall, MetadataCall, CleanupCall])"
proof
  let ?adm = "fake_client one_broker_metadata (Inr [])"
  have "clientFactory (fake_checker 5 ?adm) = Inr ?adm"
    by (simp add: fake_checker_def)
  from CheckReadiness_order [OF this, of one_broker_metadata "Inr []"]
  show "CheckReadiness (fake_checker 5 ?adm) =
     (\<lparr>Healthy = False, Message = ''broker not registered in cluster metadata''\<rparr>,
      [MetadataCall, CleanupCall])"
    by (simp add: fake_checker_def fake_client_def one_broker_metadata_def broker_detail_def)
next
  let ?adm = "fake_client two_topics_metadata (Inr [])"
  have "clientFactory (fake_checker 0 ?adm) = Inr ?adm"
    by (simp add: fake_checker_def)
  from CheckReadiness_order [OF this, of two_topics_metadata "Inr []"]
  show "CheckReadiness (fake_checker 0 ?adm) =
     (\<lparr>Healthy = False, Message = ''broker has under-replicated partitions''\<rparr>,
      [MetadataCall, MetadataCall, MetadataCall, CleanupCall])"
    by (simp add: fake_checker_def fake_client_def two_topics_metadata_def broker_detail_def
          under_replicated_count_def all_partitions_def is_under_replicated_def)
qed

text \<open>
  When the first three checks pass and the log-directory check returns a failure
  without an error, the two entry points differ in the message: \<open>CheckReadiness\<close>
  reports \<open>log directories unhealthy\<close>, the HTTP handler answers with status 503
  and the error field \<open>log directories unhealthy (future partitions detected)\<close>.
\<close>

lemma readiness_log_dirs_paths:
  assumes "clientFactory c = Inr adm"
    and "BrokerInMetadata c adm [] = (Inr True, s1)"
    and "ControllerElected c adm s1 = (Inr True, s2)"
    and "UnderReplicatedPartitions c adm s2 = (Inr n, s3)"
    and "n \<le> 0"
    and "LogDirsHealthy c adm s3 = (Inr False, s4)"
  shows
    "CheckReadiness c =
       (\<lparr>Healthy = False, Message = ''log directories unhealthy''\<rparr>, s4 @ [CleanupCall]) \<and>
     ReadinessHandler c =
       ((StatusServiceUnavailable,
         \<lparr>Status = ''unhealthy'', RBrokerID = brokerID c, RBrokerRegistered = True,
          RControllerElected = True, RUnderReplicatedPartitions = n, RLogDirsHealthy = False,
          ErrorMessage = ''log directories unhealthy (future partitions detected)''\<rparr>),
        s4 @ [CleanupCall])"
  using assms
  by (simp add: CheckReadiness_def readiness_checks_def ReadinessHandler_def
        readiness_handler_checks_def unhealthy_def)

lemma failed_fixture_checks:
  "BrokerInMetadata (fake_checker 0 (fake_client one_broker_metadata (Inr failed_log_dirs)))
     (fake_client one_broker_metadata (Inr failed_log_dirs)) [] = (Inr True, [MetadataCall]) \<and>
   ControllerElected (fake_checker 0 (fake_client one_broker_metadata (Inr failed_log_dirs)))
     (fake_client one_broker_metadata (Inr failed_log_dirs)) [MetadataCall] =
     (Inr True, [MetadataCall, MetadataCall]) \<and>
   UnderReplicatedPartitions (fake_checker 0 (fake_client one_broker_metadata (Inr failed_log_dirs)))
     (fake_client one_broker_metadata (Inr failed_log_dirs)) [MetadataCall, MetadataCall] =
     (Inr 0, [MetadataCall, MetadataCall, MetadataCall]) \<and>
   LogDirsHealthy (fake_checker 0 (fake_client one_broker_metadata (Inr failed_log_dirs)))
     (fake_client one_broker_metadata (Inr failed_log_dirs))
     [MetadataCall, MetadataCall, MetadataCall] =
     (Inr False, [MetadataCall, MetadataCall, MetadataCall, DescribeBrokerLogDirsCall 0])"
  by (simp add: BrokerInMetadata_def ControllerElected_def UnderReplicatedPartitions_def
        LogDirsHealthy_def fake_checker_def fake_client_def one_broker_metadata_def
        broker_detail_def failed_log_dirs_def)

text \<open>
  Claim C6 holds of \<open>CheckReadiness\<close> and fails of the HTTP handler. On the log
  directories of the case \<open>log dir has error\<close> of \<open>TestLogDirsHealthy\<close>, one
  directory with an error of its own and no partition placement at all, the first
  three checks pass and the fourth returns a failure without an error.
  \<open>CheckReadiness\<close> reports \<open>log directories unhealthy\<close>, as \<open>TestCheckReadiness\<close>
  expects and as the handler logs. The error field of the handler's response is
  \<open>log directories unhealthy (future partitions detected)\<close>: not the message of the
  claim, and a cause that these directories do not have.
\<close>

theorem ReadinessHandler_log_dirs_message_diverges:
  "CheckReadiness (fake_checker 0 (fake_client one_broker_metadata (Inr failed_log_dirs))) =
     (\<lparr>Healthy = False, Message = ''log directories unhealthy''\<rparr>,
      [MetadataCall, MetadataCall, MetadataCall, DescribeBrokerLogDirsCall 0, CleanupCall]) \<and>
   ReadinessHandler (fake_checker 0 (fake_client one_broker_metadata (Inr failed_log_dirs))) =
     ((StatusServiceUnavailable,
       \<lparr>Status = ''unhealthy'', RBrokerID = 0, RBrokerRegistered = True,
        RControllerElected = True, RUnderReplicatedPartitions = 0, RLogDirsHealthy = False,
        ErrorMessage = ''log directories unhealthy (future partitions detected)''\<rparr>),
      [MetadataCall, MetadataCall, MetadataCall, DescribeBrokerLogDirsCall 0, CleanupCall]) \<and>
   has_future_placement failed_log_dirs = False \<and>
   ErrorMessage (snd (fst (ReadinessHandler
     (fake_checker 0 (fake_client one_broker_metadata (Inr failed_log_dirs)))))) \<noteq>
     ''log directories unhealthy''"
proof -
  let ?adm = "fake_client one_broker_metadata (Inr failed_log_dirs)"
  let ?c = "fake_checker 0 ?adm"
  have f: "clientFactory ?c = Inr ?adm" and b: "brokerID ?c = 0"
    by (simp_all add: fake_checker_def)
  note ch = failed_fixture_checks
  have r: "CheckReadiness ?c =
       (\<lparr>Healthy = False, Message = ''log directories unhealthy''\<rparr>,
        [MetadataCall, MetadataCall, MetadataCall, DescribeBrokerLogDirsCall 0] @ [CleanupCall]) \<and>
     ReadinessHandler ?c =
       ((StatusServiceUnavailable,
         \<lparr>Status = ''unhealthy'', RBrokerID = brokerID ?c, RBrokerRegistered = True,
          RControllerElected = True, RUnderReplicatedPartitions = 0, RLogDirsHealthy = False,
          ErrorMessage = ''log directories unhealthy (future partitions detected)''\<rparr>),
        [MetadataCall, MetadataCall, MetadataCall, DescribeBrokerLogDirsCall 0] @ [CleanupCall])"
    by (rule readiness_log_dirs_paths [OF f ch [THEN conjunct1]
          ch [THEN conjunct2, THEN conjunct1]
          ch [THEN conjunct2, THEN conjunct2, THEN conjunct1] _
          ch [THEN conjunct2, THEN conjunct2, THEN conjunct2]]) simp
  have n: "has_future_placement failed_log_dirs = False"
    by (simp add: has_future_placement_def all_placements_def failed_log_dirs_def)
  from r n show ?thesis
    unfolding b by simp
qed

subsection \<open>Under-replicated partitions\<close>

text \<open>
  Claim C2. On a metadata snapshot, \<open>UnderReplicatedPartitions\<close> returns the number of
  partitions, counted one by one across all topics, whose replica list holds the
  broker and whose ISR list does not. One such partition in each of two topics gives
  2, and a broker that no replica list holds gives 0, whatever the ISR lists are.
\<close>

theorem UnderReplicatedPartitions_counts:
  assumes m: "MetadataFunc adm h = Inr md"
  shows
    "fst (UnderReplicatedPartitions c adm h) =
       Inr (int (length (filter (is_under_replicated (brokerID c)) (all_partitions md)))) \<and>
     (Topics md = [(n1, \<lparr>Partitions = [(k1, p1)]\<rparr>), (n2, \<lparr>Partitions = [(k2, p2)]\<rparr>)] \<and>
      is_under_replicated (brokerID c) p1 \<and> is_under_replicated (brokerID c) p2 \<longrightarrow>
        fst (UnderReplicatedPartitions c adm h) = Inr 2) \<and>
     ((\<forall>pd \<in> set (all_partitions md). brokerID c \<notin> set (Replicas pd)) \<longrightarrow>
        fst (UnderReplicatedPartitions c adm h) = Inr 0)"
proof -
  have r: "fst (UnderReplicatedPartitions c adm h) =
       Inr (int (length (filter (is_under_replicated (brokerID c)) (all_partitions md))))"
    using m by (simp add: UnderReplicatedPartitions_result under_replicated_count_def)
  have "filter (is_under_replicated (brokerID c)) (all_partitions md) = []"
    if "\<forall>pd \<in> set (all_partitions md). brokerID c \<notin> set (Replicas pd)"
    using that by (simp add: filter_empty_conv is_under_replicated_def)
  then show ?thesis
    unfolding r by (auto simp: all_partitions_def)
qed

theorem UnderReplicatedPartitions_counts_witness:
  "fst (UnderReplicatedPartitions (fake_checker 0 (fake_client two_topics_metadata (Inr [])))
          (fake_client two_topics_metadata (Inr [])) []) = Inr 2 \<and>
   fst (UnderReplicatedPartitions (fake_checker 3 (fake_client two_topics_metadata (Inr [])))
          (fake_client two_topics_metadata (Inr [])) []) = Inr 0"
proof -
  let ?adm = "fake_client two_topics_metadata (Inr [])"
  let ?p1 = "\<lparr>Partition = 0, Replicas = [0, 1], ISR = [1]\<rparr> :: PartitionDetail"
  let ?p2 = "\<lparr>Partition = 0, Replicas = [0, 2], ISR = [2]\<rparr> :: PartitionDetail"
  have m: "MetadataFunc ?adm [] = Inr two_topics_metadata"
    by (simp add: fake_client_def)
  have t: "Topics two_topics_metadata =
      [(''topic1'', \<lparr>Partitions = [(0, ?p1)]\<rparr>), (''topic2'', \<lparr>Partitions = [(0, ?p2)]\<rparr>)]"
    by (simp add: two_topics_metadata_def)
  have u: "is_under_replicated (brokerID (fake_checker 0 ?adm)) ?p1"
    "is_under_replicated (brokerID (fake_checker 0 ?adm)) ?p2"
    by (simp_all add: fake_checker_def is_under_replicated_def)
  have n: "\<forall>pd \<in> set (all_partitions two_topics_metadata).
             brokerID (fake_checker 3 ?adm) \<notin> set (Replicas pd)"
    by (simp add: fake_checker_def two_topics_metadata_def all_partitions_def)
  from UnderReplicatedPartitions_counts [OF m, of "fake_checker 0 ?adm" "''topic1''" 0 ?p1
      "''topic2''" 0 ?p2] t u
  have a: "fst (UnderReplicatedPartitions (fake_checker 0 ?adm) ?adm []) = Inr 2"
    by blast
  from UnderReplicatedPartitions_counts [OF m, of "fake_checker 3 ?adm"] n
  have b: "fst (UnderReplicatedPartitions (fake_checker 3 ?adm) ?adm []) = Inr 0"
    by blast
  from a b show ?thesis by simp
qed

subsection \<open>Log directories\<close>

text \<open>
  Claim C5. \<open>LogDirsHealthy\<close> returns an error exactly when the describe call fails,
  and the error carries the text of the call's error. When the call succeeds, the
  verdict is healthy exactly when no directory has an error of its own and no
  partition placement of any directory is flagged future; either of the two alone
  makes it unhealthy.
\<close>

theorem LogDirsHealthy_verdict:
  "((\<exists>e. fst (LogDirsHealthy c adm h) = Inl e) \<longleftrightarrow>
      (\<exists>e. DescribeBrokerLogDirsFunc adm h (brokerID c) = Inl e)) \<and>
   (DescribeBrokerLogDirsFunc adm h (brokerID c) = Inl e \<longrightarrow>
      fst (LogDirsHealthy c adm h) = Inl (''failed to describe log dirs: '' @ e)) \<and>
   (DescribeBrokerLogDirsFunc adm h (brokerID c) = Inr dirs \<longrightarrow>
      fst (LogDirsHealthy c adm h) =
        Inr (\<not> (has_directory_error dirs \<or> has_future_placement dirs)))"
proof (cases "DescribeBrokerLogDirsFunc adm h (brokerID c)")
  case (Inl e')
  then show ?thesis
    by (simp add: LogDirsHealthy_error)
next
  case (Inr dirs')
  then show ?thesis
    by (simp add: LogDirsHealthy_result)
qed

theorem LogDirsHealthy_verdict_witness:
  "fst (LogDirsHealthy (fake_checker 0 (fake_client one_broker_metadata (Inl ''broker not available'')))
          (fake_client one_broker_metadata (Inl ''broker not available'')) []) =
     Inl ''failed to describe log dirs: broker not available'' \<and>
   fst (LogDirsHealthy (fake_checker 0 (fake_client one_broker_metadata (Inr future_log_dirs)))
          (fake_client one_broker_metadata (Inr future_log_dirs)) []) = Inr False \<and>
   fst (LogDirsHealthy (fake_checker 0 (fake_client one_broker_metadata (Inr failed_log_dirs)))
          (fake_client one_broker_metadata (Inr failed_log_dirs)) []) = Inr False \<and>
   fst (LogDirsHealthy (fake_checker 0 (fake_client one_broker_metadata (Inr [])))
          (fake_client one_broker_metadata (Inr [])) []) = Inr True"
proof -
  let ?c = "\<lambda>dres. fake_checker 0 (fake_client one_broker_metadata dres)"
  let ?a = "\<lambda>dres. fake_client one_broker_metadata dres"
  from LogDirsHealthy_verdict [of "?c (Inl ''broker not available'')"
      "?a (Inl ''broker not available'')" "[]" "''broker not available''"]
  have 1: "fst (LogDirsHealthy (?c (Inl ''broker not available''))
             (?a (Inl ''broker not available'')) []) =
           Inl ''failed to describe log dirs: broker not available''"
    by (simp add: fake_client_def)
  from LogDirsHealthy_verdict [of "?c (Inr future_log_dirs)" "?a (Inr future_log_dirs)" "[]" _
      future_log_dirs]
  have 2: "fst (LogDirsHealthy (?c (Inr future_log_dirs)) (?a (Inr future_log_dirs)) []) =
           Inr False"
    by (simp add: fake_client_def future_log_dirs_def has_future_placement_def
          all_placements_def)
  from LogDirsHealthy_verdict [of "?c (Inr failed_log_dirs)" "?a (Inr failed_log_dirs)" "[]" _
      failed_log_dirs]
  have 3: "fst (LogDirsHealthy (?c (Inr failed_log_dirs)) (?a (Inr failed_log_dirs)) []) =
           Inr False"
    by (simp add: fake_client_def failed_log_dirs_def has_directory_error_def)
  from LogDirsHealthy_verdict [of "?c (Inr [])" "?a (Inr [])" "[]" _ "[]"]
  have 4: "fst (LogDirsHealthy (?c (Inr [])) (?a (Inr [])) []) = Inr True"
    by (simp add: fake_client_def has_directory_error_def has_future_placement_def
          all_placements_def)
  from 1 2 3 4 show ?thesis by simp
qed

subsection \<open>The liveness evaluation\<close>

text \<open>
  Claim C7. With a client from the factory and a metadata snapshot, \<open>CheckLiveness\<close>
  is healthy with an empty message when the snapshot holds the broker ID, and
  unhealthy with the message \<open>broker not found in cluster metadata\<close> when it does
  not. The client sees one metadata call and the release: the controller, replica
  and log-directory checks, each of which calls the client, do not run.
\<close>

theorem CheckLiveness_registration_only:
  assumes "clientFactory c = Inr adm" and "MetadataFunc adm [] = Inr md"
  shows
    "CheckLiveness c =
       (if brokerID c \<in> NodeID ` set (Brokers md)
        then \<lparr>Healthy = True, Message = []\<rparr>
        else \<lparr>Healthy = False, Message = ''broker not found in cluster metadata''\<rparr>,
        [MetadataCall, CleanupCall])"
  using assms
  by (simp add: CheckLiveness_def liveness_checks_def BrokerInMetadata_result)

theorem CheckLiveness_registration_only_witness:
  "CheckLiveness (fake_checker 5 (fake_client two_topics_metadata (Inr future_log_dirs))) =
     (\<lparr>Healthy = False, Message = ''broker not found in cluster metadata''\<rparr>,
      [MetadataCall, CleanupCall]) \<and>
   CheckLiveness (fake_checker 0 (fake_client two_topics_metadata (Inr future_log_dirs))) =
     (\<lparr>Healthy = True, Message = []\<rparr>, [MetadataCall, CleanupCall])"
proof -
  let ?adm = "fake_client two_topics_metadata (Inr future_log_dirs)"
  have m: "MetadataFunc ?adm [] = Inr two_topics_metadata"
    by (simp add: fake_client_def)
  have "clientFactory (fake_checker 5 ?adm) = Inr ?adm"
    by (simp add: fake_checker_def)
  from CheckLiveness_registration_only [OF this m]
  have a: "CheckLiveness (fake_checker 5 ?adm) =
     (\<lparr>Healthy = False, Message = ''broker not found in cluster metadata''\<rparr>,
      [MetadataCall, CleanupCall])"
    by (simp add: fake_checker_def two_topics_metadata_def broker_detail_def)
  have "clientFactory (fake_checker 0 ?adm) = Inr ?adm"
    by (simp add: fake_checker_def)
  from CheckLiveness_registration_only [OF this m]
  have b: "CheckLiveness (fake_checker 0 ?adm) =
     (\<lparr>Healthy = True, Message = []\<rparr>, [MetadataCall, CleanupCall])"
    by (simp add: fake_checker_def two_topics_metadata_def broker_detail_def)
  from a b show ?thesis by simp
qed

subsection \<open>The SASL mechanism\<close>

text \<open>
  Claim C8. \<open>getSASLOpt\<close> returns an option exactly when the upper-cased mechanism
  is \<open>PLAIN\<close>, \<open>SCRAM-SHA-256\<close> or \<open>SCRAM-SHA-512\<close>; for every other string,
  the empty one among them, it returns the error that names the upper-cased
  mechanism as unsupported. On a mechanism of ASCII bytes the comparison ignores the
  case of the letters.
\<close>

theorem getSASLOpt_mechanisms:
  "((\<exists>opt. getSASLOpt U c = Inr opt) \<longleftrightarrow>
      ToUpper U (Mechanism (saslConfig c)) \<in> {''PLAIN'', ''SCRAM-SHA-256'', ''SCRAM-SHA-512''}) \<and>
   (ToUpper U (Mechanism (saslConfig c)) \<notin> {''PLAIN'', ''SCRAM-SHA-256'', ''SCRAM-SHA-512''} \<longrightarrow>
      getSASLOpt U c =
        Inl (''unsupported SASL mechanism: '' @ ToUpper U (Mechanism (saslConfig c)) @
             '' (supported: PLAIN, SCRAM-SHA-256, SCRAM-SHA-512)'')) \<and>
   (is_ascii (Mechanism (saslConfig c)) \<longrightarrow>
      ((\<exists>opt. getSASLOpt U c = Inr opt) \<longleftrightarrow>
         map upper_ascii (Mechanism (saslConfig c)) \<in>
           {''PLAIN'', ''SCRAM-SHA-256'', ''SCRAM-SHA-512''})) \<and>
   (Mechanism (saslConfig c) = [] \<longrightarrow> (\<exists>e. getSASLOpt U c = Inl e))"
  by (auto simp: getSASLOpt_def ToUpper_def Let_def is_ascii_def)

theorem getSASLOpt_mechanisms_witness:
  "(\<exists>opt. getSASLOpt (\<lambda>s. s) (sasl_checker ''plain'') = Inr opt) \<and>
   (\<exists>opt. getSASLOpt (\<lambda>s. s) (sasl_checker ''Scram-Sha-512'') = Inr opt) \<and>
   getSASLOpt (\<lambda>s. s) (sasl_checker ''GSSAPI'') =
     Inl ''unsupported SASL mechanism: GSSAPI (supported: PLAIN, SCRAM-SHA-256, SCRAM-SHA-512)'' \<and>
   (\<exists>e. getSASLOpt (\<lambda>s. s) (sasl_checker []) = Inl e)"
proof -
  have m: "Mechanism (saslConfig (sasl_checker x)) = x" for x
    by (simp add: sasl_checker_def)
  have a: "is_ascii ''plain''" "is_ascii ''Scram-Sha-512''"
    by (simp_all add: is_ascii_def)
  have u: "map upper_ascii ''plain'' = ''PLAIN''"
    "map upper_ascii ''Scram-Sha-512'' = ''SCRAM-SHA-512''"
    "ToUpper (\<lambda>s. s) ''GSSAPI'' = ''GSSAPI''"
    by code_simp+
  from getSASLOpt_mechanisms [of "\<lambda>s. s" "sasl_checker ''plain''", THEN conjunct2,
      THEN conjunct2, THEN conjunct1] a u
  have 1: "\<exists>opt. getSASLOpt (\<lambda>s. s) (sasl_checker ''plain'') = Inr opt"
    unfolding m by simp
  from getSASLOpt_mechanisms [of "\<lambda>s. s" "sasl_checker ''Scram-Sha-512''", THEN conjunct2,
      THEN conjunct2, THEN conjunct1] a u
  have 2: "\<exists>opt. getSASLOpt (\<lambda>s. s) (sasl_checker ''Scram-Sha-512'') = Inr opt"
    unfolding m by simp
  from getSASLOpt_mechanisms [of "\<lambda>s. s" "sasl_checker ''GSSAPI''", THEN conjunct2,
      THEN conjunct1] u
  have 3: "getSASLOpt (\<lambda>s. s) (sasl_checker ''GSSAPI'') =
     Inl ''unsupported SASL mechanism: GSSAPI (supported: PLAIN, SCRAM-SHA-256, SCRAM-SHA-512)''"
    unfolding m by simp
  from getSASLOpt_mechanisms [of "\<lambda>s. s" "sasl_checker []", THEN conjunct2,
      THEN conjunct2, THEN conjunct2]
  have 4: "\<exists>e. getSASLOpt (\<lambda>s. s) (sasl_checker []) = Inl e"
    unfolding m by simp
  from 1 2 3 4 show ?thesis by blast
qed

subsection \<open>Parsing numbers and searching bytes\<close>

lemma digit_of_le: "is_digit c \<Longrightarrow> digit_of c \<le> 9"
  unfolding is_digit_def digit_of_def by linarith

lemma foldl_digits_ge: "n \<le> foldl (\<lambda>n c. 10 * n + digit_of c) n cs"
proof (induction cs arbitrary: n)
  case Nil
  show ?case by simp
next
  case (Cons c cs)
  have "n \<le> 10 * n + digit_of c" by simp
  also have "\<dots> \<le> foldl (\<lambda>n c. 10 * n + digit_of c) (10 * n + digit_of c) cs"
    by (rule Cons.IH)
  finally show ?case by simp
qed

lemma parse_uint_loop_Inr:
  "maxVal < 2 ^ 64 \<Longrightarrow> list_all is_digit cs \<Longrightarrow>
   foldl (\<lambda>n c. 10 * n + digit_of c) n cs \<le> maxVal \<Longrightarrow>
   parse_uint_loop cs maxVal n = Inr (foldl (\<lambda>n c. 10 * n + digit_of c) n cs)"
proof (induction cs arbitrary: n)
  case Nil
  show ?case by simp
next
  case (Cons c cs)
  let ?n1 = "10 * n + digit_of c"
  have le: "?n1 \<le> maxVal"
    using foldl_digits_ge [of ?n1 cs] Cons.prems(3) by simp
  then have small: "?n1 < 2 ^ 64"
    using Cons.prems(1) by simp
  then have n: "\<not> n \<ge> (2 ^ 64 - 1) div 10 + 1"
    by simp
  have m: "(n * 10 + digit_of c) mod 2 ^ 64 = ?n1"
    using small by (simp add: mult.commute)
  have "parse_uint_loop cs maxVal ?n1 = Inr (foldl (\<lambda>n c. 10 * n + digit_of c) ?n1 cs)"
    using Cons.prems by (intro Cons.IH) simp_all
  then show ?case
    using Cons.prems(2) n le m by (simp add: Let_def mult.commute)
qed

lemma parse_uint_loop_Inl:
  "maxVal < 2 ^ 64 \<Longrightarrow> n \<le> maxVal \<Longrightarrow>
   \<not> (list_all is_digit cs \<and> foldl (\<lambda>n c. 10 * n + digit_of c) n cs \<le> maxVal) \<Longrightarrow>
   \<exists>e. parse_uint_loop cs maxVal n = Inl e"
proof (induction cs arbitrary: n)
  case Nil
  then show ?case by simp
next
  case (Cons c cs)
  let ?n1 = "10 * n + digit_of c"
  show ?case
  proof (cases "is_digit c")
    case False
    then show ?thesis by simp
  next
    case digit: True
    show ?thesis
    proof (cases "n \<ge> (2 ^ 64 - 1) div 10 + 1")
      case True
      with digit show ?thesis by simp
    next
      case n: False
      show ?thesis
      proof (cases "?n1 < 2 ^ 64")
        case False
        then have "2 ^ 64 \<le> ?n1" by simp
        moreover have "?n1 < 2 * 2 ^ 64"
          using n digit_of_le [OF digit] by simp
        ultimately have "?n1 mod 2 ^ 64 = ?n1 - 2 ^ 64"
          by (metis add_diff_cancel_left' le_Suc_ex mod_add_self1 mod_less
              mult_2 nat_add_left_cancel_less)
        then have "(n * 10 + digit_of c) mod 2 ^ 64 < n * 10"
          using digit_of_le [OF digit] \<open>2 ^ 64 \<le> ?n1\<close> by (simp add: mult.commute)
        with digit n show ?thesis by (simp add: Let_def)
      next
        case small: True
        then have m: "(n * 10 + digit_of c) mod 2 ^ 64 = ?n1"
          by (simp add: mult.commute)
        show ?thesis
        proof (cases "?n1 \<le> maxVal")
          case False
          with digit n m show ?thesis by (simp add: Let_def)
        next
          case True
          have "\<not> (list_all is_digit cs \<and> foldl (\<lambda>n c. 10 * n + digit_of c) ?n1 cs \<le> maxVal)"
            using Cons.prems(3) digit by simp
          with Cons.prems(1) True have "\<exists>e. parse_uint_loop cs maxVal ?n1 = Inl e"
            by (intro Cons.IH)
          with digit n m True show ?thesis by (simp add: Let_def mult.commute)
        qed
      qed
    qed
  qed
qed


lemma last_index_loop_none:
  "c \<notin> set s \<Longrightarrow> n \<le> length s \<Longrightarrow> last_index_loop s c n = - 1"
  by (induction n) auto

lemma last_index_loop_found:
  "c \<notin> set suf \<Longrightarrow> k \<le> length suf \<Longrightarrow>
   last_index_loop (pre @ c # suf) c (Suc (length pre + k)) = int (length pre)"
proof (induction k)
  case 0
  show ?case by simp
next
  case (Suc k)
  then have "suf ! k \<noteq> c"
    by (metis Suc_le_lessD nth_mem)
  then have "(pre @ c # suf) ! Suc (length pre + k) \<noteq> c"
    by (simp add: nth_append)
  with Suc show ?case by simp
qed

lemma LastIndex_none: "c \<notin> set s \<Longrightarrow> LastIndex s c = - 1"
  by (simp add: LastIndex_def last_index_loop_none)

lemma LastIndex_found: "c \<notin> set suf \<Longrightarrow> LastIndex (pre @ c # suf) c = int (length pre)"
  using last_index_loop_found [of c suf "length suf" pre] by (simp add: LastIndex_def)

lemma ParseUint_32_Inr:
  "ds \<noteq> [] \<Longrightarrow> list_all is_digit ds \<Longrightarrow> decimal_value ds < 2 ^ 32 \<Longrightarrow>
   ParseUint ds 32 = Inr (decimal_value ds)"
  using parse_uint_loop_Inr [of "2 ^ 32 - 1" ds 0]
  by (simp add: ParseUint_def decimal_value_def)

lemma ParseUint_32_Inl:
  "\<not> (ds \<noteq> [] \<and> list_all is_digit ds \<and> decimal_value ds < 2 ^ 32) \<Longrightarrow>
   \<exists>e. ParseUint ds 32 = Inl e"
  using parse_uint_loop_Inl [of "2 ^ 32 - 1" 0 ds]
  by (auto simp: ParseUint_def decimal_value_def)

lemma ParseInt_32_Inr:
  assumes "s \<noteq> []" and "hd s \<noteq> CHR ''-''"
    and "is_base10_integer s" and "base10_value s < 2 ^ 31"
  shows "ParseInt s 32 = Inr (base10_value s)"
proof -
  obtain c cs where s: "s = c # cs"
    using assms(1) by (cases s) auto
  let ?u = "unsigned_part s"
  have c: "c \<noteq> CHR ''-''"
    using assms(2) s by simp
  have u: "(if hd s = CHR ''+'' \<or> hd s = CHR ''-'' then tl s else s) = ?u"
    by (simp add: s unsigned_part_def)
  have v: "base10_value s = int (decimal_value ?u)"
    using c by (simp add: s base10_value_def)
  have "decimal_value ?u < 2 ^ 31"
    using assms(4) unfolding v by simp
  moreover from this have "decimal_value ?u < 2 ^ 32"
    by simp
  then have "ParseUint ?u 32 = Inr (decimal_value ?u)"
    using assms(3) by (intro ParseUint_32_Inr) (simp_all add: is_base10_integer_def)
  ultimately show ?thesis
    using assms(1,2) unfolding ParseInt_def u v by (simp add: Let_def)
qed

lemma ParseInt_32_Inl:
  assumes "s \<noteq> []" and "hd s \<noteq> CHR ''-''"
    and "\<not> (is_base10_integer s \<and> base10_value s < 2 ^ 31)"
  shows "\<exists>e. ParseInt s 32 = Inl e"
proof -
  obtain c cs where s: "s = c # cs"
    using assms(1) by (cases s) auto
  let ?u = "unsigned_part s"
  have c: "c \<noteq> CHR ''-''"
    using assms(2) s by simp
  have u: "(if hd s = CHR ''+'' \<or> hd s = CHR ''-'' then tl s else s) = ?u"
    by (simp add: s unsigned_part_def)
  have v: "base10_value s = int (decimal_value ?u)"
    using c by (simp add: s base10_value_def)
  show ?thesis
  proof (cases "ParseUint ?u 32")
    case (Inl e)
    then show ?thesis
      using assms(1) unfolding ParseInt_def u by (cases e) (simp_all add: Let_def)
  next
    case (Inr un)
    then have ok: "?u \<noteq> [] \<and> list_all is_digit ?u \<and> decimal_value ?u < 2 ^ 32"
      using ParseUint_32_Inl [of ?u] by auto
    then have "un = decimal_value ?u"
      using Inr ParseUint_32_Inr [of ?u] by simp
    moreover have "\<not> decimal_value ?u < 2 ^ 31"
      using assms(3) ok unfolding v is_base10_integer_def by simp
    ultimately show ?thesis
      using assms(1,2) Inr unfolding ParseInt_def u by (simp add: Let_def)
  qed
qed

subsection \<open>The broker ID of a host name\<close>

lemmas base10_eval =
  is_base10_integer_def base10_value_def unsigned_part_def decimal_value_def is_digit_def
  digit_of_def

text \<open>
  Claim C3, as the code has it. \<open>ParseBrokerIDFromHostname\<close> fails on a host name
  without a hyphen and on one whose last hyphen is its last character. Otherwise the
  suffix after the last hyphen decides: when it is a base-10 integer that fits a
  signed 32-bit integer (at most 2147483647), the result is that integer; in every
  other case the function fails. So \<open>kafka-7\<close> gives 7 and \<open>my-kafka-cluster-2\<close>
  gives 2.
\<close>

theorem ParseBrokerIDFromHostname_cases:
  "(CHR ''-'' \<notin> set H \<longrightarrow> ParseBrokerIDFromHostname H = Inl (NoHyphen H)) \<and>
   (H = pre @ ''-'' \<longrightarrow> ParseBrokerIDFromHostname H = Inl (TrailingHyphen H)) \<and>
   (H = pre @ ''-'' @ suf \<and> suf \<noteq> [] \<and> CHR ''-'' \<notin> set suf \<longrightarrow>
      (if is_base10_integer suf \<and> base10_value suf < 2 ^ 31
       then ParseBrokerIDFromHostname H = Inr (word_of_int (base10_value suf)) \<and>
            sint (word_of_int (base10_value suf) :: int32) = base10_value suf
       else \<exists>e. ParseBrokerIDFromHostname H = Inl (ParseReplicaIndex H e)))"
proof (intro conjI impI)
  assume "CHR ''-'' \<notin> set H"
  then show "ParseBrokerIDFromHostname H = Inl (NoHyphen H)"
    by (simp add: ParseBrokerIDFromHostname_def LastIndex_none)
next
  assume "H = pre @ ''-''"
  then show "ParseBrokerIDFromHostname H = Inl (TrailingHyphen H)"
    using LastIndex_found [of "CHR ''-''" "[]" pre]
    by (simp add: ParseBrokerIDFromHostname_def)
next
  assume a: "H = pre @ ''-'' @ suf \<and> suf \<noteq> [] \<and> CHR ''-'' \<notin> set suf"
  then have li: "LastIndex H (CHR ''-'') = int (length pre)"
    using LastIndex_found [of "CHR ''-''" suf pre] by simp
  have dr: "drop (nat (int (length pre) + 1)) H = suf"
    using a by (simp add: nat_add_distrib)
  have hd: "hd suf \<noteq> CHR ''-''"
    using a by (cases suf) auto
  have nonneg: "0 \<le> base10_value suf"
    using hd a by (cases suf) (auto simp: base10_value_def)
  show "if is_base10_integer suf \<and> base10_value suf < 2 ^ 31
       then ParseBrokerIDFromHostname H = Inr (word_of_int (base10_value suf)) \<and>
            sint (word_of_int (base10_value suf) :: int32) = base10_value suf
       else \<exists>e. ParseBrokerIDFromHostname H = Inl (ParseReplicaIndex H e)"
  proof (cases "is_base10_integer suf \<and> base10_value suf < 2 ^ 31")
    case True
    then have "ParseInt suf 32 = Inr (base10_value suf)"
      using a hd by (intro ParseInt_32_Inr) simp_all
    moreover have "sint (word_of_int (base10_value suf) :: int32) = base10_value suf"
      using True nonneg by (simp add: int_word_sint)
    ultimately show ?thesis
      using True a li dr by (simp add: ParseBrokerIDFromHostname_def Let_def)
  next
    case False
    then obtain e where "ParseInt suf 32 = Inl e"
      using ParseInt_32_Inl [of suf] a hd by auto
    then show ?thesis
      using False a li dr by (simp add: ParseBrokerIDFromHostname_def Let_def)
  qed
qed

theorem ParseBrokerIDFromHostname_cases_witness:
  "ParseBrokerIDFromHostname ''kafka-7'' = Inr 7 \<and>
   ParseBrokerIDFromHostname ''my-kafka-cluster-2'' = Inr 2 \<and>
   ParseBrokerIDFromHostname ''kafka'' = Inl (NoHyphen ''kafka'') \<and>
   ParseBrokerIDFromHostname ''kafka-'' = Inl (TrailingHyphen ''kafka-'') \<and>
   (\<exists>e. ParseBrokerIDFromHostname ''kafka-x'' = Inl (ParseReplicaIndex ''kafka-x'' e))"
proof -
  have v7: "is_base10_integer ''7''" "base10_value ''7'' = 7"
    and v2: "is_base10_integer ''2''" "base10_value ''2'' = 2"
    and x: "\<not> is_base10_integer ''x''"
    by (simp_all add: base10_eval)
  from ParseBrokerIDFromHostname_cases [of "''kafka-7''" "''kafka''" "''7''"] v7
  have 1: "ParseBrokerIDFromHostname ''kafka-7'' = Inr 7"
    by simp
  from ParseBrokerIDFromHostname_cases [of "''my-kafka-cluster-2''" "''my-kafka-cluster''" "''2''"] v2
  have 2: "ParseBrokerIDFromHostname ''my-kafka-cluster-2'' = Inr 2"
    by simp
  from ParseBrokerIDFromHostname_cases [of "''kafka''"]
  have 3: "ParseBrokerIDFromHostname ''kafka'' = Inl (NoHyphen ''kafka'')"
    by simp
  from ParseBrokerIDFromHostname_cases [of "''kafka-''" "''kafka''"]
  have 4: "ParseBrokerIDFromHostname ''kafka-'' = Inl (TrailingHyphen ''kafka-'')"
    by simp
  from ParseBrokerIDFromHostname_cases [of "''kafka-x''" "''kafka''" "''x''"] x
  have 5: "\<exists>e. ParseBrokerIDFromHostname ''kafka-x'' = Inl (ParseReplicaIndex ''kafka-x'' e)"
    by simp
  from 1 2 3 4 5 show ?thesis by blast
qed

text \<open>
  A suffix that is a base-10 integer is not enough: \<open>2147483648\<close> is one, and the
  host name \<open>kafka-2147483648\<close> is refused with a range error, because the index is
  parsed at 32 bits.
\<close>

theorem ParseBrokerIDFromHostname_range_counterexample:
  "is_base10_integer ''2147483648'' \<and> base10_value ''2147483648'' = 2147483648 \<and>
   ParseBrokerIDFromHostname ''kafka-2147483648'' =
     Inl (ParseReplicaIndex ''kafka-2147483648'' ErrRange)"
proof -
  have "LastIndex ''kafka-2147483648'' (CHR ''-'') = 5"
    using LastIndex_found [of "CHR ''-''" "''2147483648''" "''kafka''"] by simp
  moreover have "ParseInt ''2147483648'' 32 = Inl ErrRange"
    by (simp add: ParseInt_def ParseUint_def is_digit_def digit_of_def Let_def)
  ultimately have "ParseBrokerIDFromHostname ''kafka-2147483648'' =
     Inl (ParseReplicaIndex ''kafka-2147483648'' ErrRange)"
    by (simp add: ParseBrokerIDFromHostname_def)
  moreover have "is_base10_integer ''2147483648''" "base10_value ''2147483648'' = 2147483648"
    by (simp_all add: base10_eval)
  ultimately show ?thesis by simp
qed

subsection \<open>The bootstrap servers\<close>

lemma servers_loop_fills:
  "0 \<le> i \<Longrightarrow> i \<le> n \<Longrightarrow> length servers = nat n \<Longrightarrow>
   servers_loop i n w l g p servers =
     take (nat i) servers @ map (\<lambda>k. Sprintf_replica (int k) w l g p) [nat i..<nat n]"
proof (induction i n w l g p servers rule: servers_loop.induct)
  case (1 i n w l g p servers)
  show ?case
  proof (cases "i < n")
    case True
    let ?a = "Sprintf_replica i w l g p"
    have len: "nat i < length servers"
      using True 1 by simp
    have "servers_loop i n w l g p servers = servers_loop (i + 1) n w l g p (servers[nat i := ?a])"
      using True by (simp add: servers_loop.simps [of i])
    also have "\<dots> = take (nat (i + 1)) (servers[nat i := ?a]) @
        map (\<lambda>k. Sprintf_replica (int k) w l g p) [nat (i + 1)..<nat n]"
      using True 1 by (intro "1.IH") simp_all
    also have "take (nat (i + 1)) (servers[nat i := ?a]) = take (nat i) servers @ [?a]"
      using len 1 by (simp add: nat_add_distrib take_Suc_conv_app_nth)
    also have "[nat i..<nat n] = nat i # [nat (i + 1)..<nat n]"
      using True 1 by (simp add: nat_add_distrib upt_conv_Cons)
    then have "(take (nat i) servers @ [?a]) @
        map (\<lambda>k. Sprintf_replica (int k) w l g p) [nat (i + 1)..<nat n] =
      take (nat i) servers @ map (\<lambda>k. Sprintf_replica (int k) w l g p) [nat i..<nat n]"
      using 1 by simp
    finally show ?thesis .
  next
    case False
    then have "servers_loop i n w l g p servers = servers"
      by (simp add: servers_loop.simps [of i])
    with False 1 show ?thesis
      by simp
  qed
qed

lemma foldl_join: "foldl (\<lambda>b s. b @ sep @ s) e es = e @ concat (map (\<lambda>s. sep @ s) es)"
  by (induction es arbitrary: e) simp_all

lemma comma_joined_Cons: "comma_joined (x # xs) = x @ concat (map (\<lambda>s. '','' @ s) xs)"
  by (induction xs arbitrary: x) simp_all

lemma Join_comma: "Join xs '','' = comma_joined xs"
  by (cases xs) (simp_all add: foldl_join [of "'',''", simplified] comma_joined_Cons)

lemma utoa_last: "utoa n \<noteq> [] \<and> last (utoa n) \<noteq> CHR '',''"
proof -
  have d: "''0123456789'' ! k \<noteq> CHR '',''" if "k < 10" for k
  proof -
    from that have "k \<in> {0, 1, 2, 3, 4, 5, 6, 7, 8, 9}" by auto
    then show ?thesis by auto
  qed
  show ?thesis
    by (subst (1 2) utoa.simps) (simp add: d)
qed

lemma itoa_last: "itoa i \<noteq> [] \<and> last (itoa i) \<noteq> CHR '',''"
  using utoa_last by (simp add: itoa_def)

lemma Sprintf_replica_last:
  "Sprintf_replica i w l g p \<noteq> [] \<and> last (Sprintf_replica i w l g p) \<noteq> CHR '',''"
  using itoa_last [of p] by (simp add: Sprintf_replica_def)

lemma comma_joined_last:
  "xs \<noteq> [] \<Longrightarrow> last xs \<noteq> [] \<Longrightarrow> comma_joined xs \<noteq> [] \<and> last (comma_joined xs) = last (last xs)"
  by (induction xs rule: comma_joined.induct) auto


lemma BuildBootstrapServers_eq:
  assumes "within_allocation maxAlloc rc"
  shows "BuildBootstrapServers maxAlloc w l g rc p =
     Inr (comma_joined (map (\<lambda>i. Sprintf_replica (int i) w l g p) [0..<nat (max rc 1)]))"
proof -
  let ?n = "if rc \<le> 0 then 1 else rc"
  have n: "?n = max rc 1" by simp
  have m: "make_strings maxAlloc (max rc 1) = Inr (replicate (nat (max rc 1)) [])"
    using assms by (simp add: make_strings_def within_allocation_def)
  have "servers_loop 0 ?n w l g p (replicate (nat ?n) []) =
      take (nat 0) (replicate (nat ?n) []) @
      map (\<lambda>k. Sprintf_replica (int k) w l g p) [nat 0..<nat ?n]"
    by (rule servers_loop_fills) simp_all
  then show ?thesis
    unfolding BuildBootstrapServers_def Let_def Join_comma n m by simp
qed

lemma BuildBootstrapServers_panic:
  assumes "\<not> within_allocation maxAlloc rc"
  shows "BuildBootstrapServers maxAlloc w l g rc p = Inl MakesliceLenOutOfRange"
proof -
  have n: "(if rc \<le> 0 then 1 else rc) = max rc 1" by simp
  have "make_strings maxAlloc (max rc 1) = Inl MakesliceLenOutOfRange"
    using assms by (auto simp: make_strings_def within_allocation_def)
  then show ?thesis
    unfolding BuildBootstrapServers_def Let_def n by simp
qed

lemma within_allocation_nonpositive: "rc \<le> 0 \<Longrightarrow> within_allocation maxAlloc rc = within_allocation maxAlloc 1"
  by (simp add: within_allocation_def max_def)

text \<open>
  Claim C4, as the code has it. \<open>BuildBootstrapServers\<close> terminates on every input.
  When the slice of \<open>max replicaCount 1\<close> strings is within what the runtime
  allocates, the result is the list of the addresses
  \<open>replica-i.workload.location.gvc.cpln.local:port\<close> for \<open>i\<close> from 0 to
  \<open>max replicaCount 1 - 1\<close>, joined with commas; it is not empty and does not end in
  a comma. For a larger replica count \<open>make\<close> panics. A replica count of 0 or below
  gives what a replica count of 1 gives, and three replicas of the workload
  \<open>kafka\<close> give the three addresses of the specification.
\<close>

theorem BuildBootstrapServers_addresses:
  "(within_allocation maxAlloc rc \<longrightarrow>
      BuildBootstrapServers maxAlloc w l g rc p =
        Inr (comma_joined (map (\<lambda>i. Sprintf_replica (int i) w l g p) [0..<nat (max rc 1)])) \<and>
      comma_joined (map (\<lambda>i. Sprintf_replica (int i) w l g p) [0..<nat (max rc 1)]) \<noteq> [] \<and>
      last (comma_joined (map (\<lambda>i. Sprintf_replica (int i) w l g p) [0..<nat (max rc 1)])) \<noteq>
        CHR '','') \<and>
   (\<not> within_allocation maxAlloc rc \<longrightarrow>
      BuildBootstrapServers maxAlloc w l g rc p = Inl MakesliceLenOutOfRange) \<and>
   (rc \<le> 0 \<longrightarrow>
      BuildBootstrapServers maxAlloc w l g rc p = BuildBootstrapServers maxAlloc w l g 1 p) \<and>
   (within_allocation maxAlloc 3 \<longrightarrow>
      BuildBootstrapServers maxAlloc ''kafka'' ''aws-us-west-2'' ''test-gvc'' 3 9092 =
        Inr ''replica-0.kafka.aws-us-west-2.test-gvc.cpln.local:9092,replica-1.kafka.aws-us-west-2.test-gvc.cpln.local:9092,replica-2.kafka.aws-us-west-2.test-gvc.cpln.local:9092'')"
proof -
  let ?xs = "map (\<lambda>i. Sprintf_replica (int i) w l g p) [0..<nat (max rc 1)]"
  have ne: "?xs \<noteq> []" by simp
  then have "last ?xs = Sprintf_replica (int (nat (max rc 1) - 1)) w l g p"
    by (simp add: last_map)
  then have l: "last ?xs \<noteq> []" "last (last ?xs) \<noteq> CHR '',''"
    using Sprintf_replica_last by simp_all
  have last: "comma_joined ?xs \<noteq> [] \<and> last (comma_joined ?xs) \<noteq> CHR '',''"
    using comma_joined_last [OF ne l(1)] l(2) by simp
  have same: "BuildBootstrapServers maxAlloc w l g rc p = BuildBootstrapServers maxAlloc w l g 1 p"
    if "rc \<le> 0"
  proof (cases "within_allocation maxAlloc rc")
    case True
    moreover from True that have "within_allocation maxAlloc 1"
      by (simp add: within_allocation_nonpositive)
    ultimately show ?thesis
      using that by (simp add: BuildBootstrapServers_eq max_def)
  next
    case False
    moreover from False that have "\<not> within_allocation maxAlloc 1"
      by (simp add: within_allocation_nonpositive)
    ultimately show ?thesis
      by (simp add: BuildBootstrapServers_panic)
  qed
  have three: "[0..<nat (max 3 1)] = [0, 1, 2]"
    by (simp add: upt_rec)
  have ex: "BuildBootstrapServers maxAlloc ''kafka'' ''aws-us-west-2'' ''test-gvc'' 3 9092 =
     Inr ''replica-0.kafka.aws-us-west-2.test-gvc.cpln.local:9092,replica-1.kafka.aws-us-west-2.test-gvc.cpln.local:9092,replica-2.kafka.aws-us-west-2.test-gvc.cpln.local:9092''"
    if "within_allocation maxAlloc 3"
    unfolding BuildBootstrapServers_eq [OF that] three
    by (simp add: Sprintf_replica_def itoa_def utoa.simps)
  from last same ex show ?thesis
    by (simp add: BuildBootstrapServers_eq BuildBootstrapServers_panic)
qed

theorem BuildBootstrapServers_addresses_witness:
  "BuildBootstrapServers (2 ^ 48) ''kafka'' ''aws-us-west-2'' ''test-gvc'' 0 9092 =
     Inr ''replica-0.kafka.aws-us-west-2.test-gvc.cpln.local:9092'' \<and>
   BuildBootstrapServers (2 ^ 48) ''kafka'' ''aws-us-west-2'' ''test-gvc'' (- 1) 9092 =
     Inr ''replica-0.kafka.aws-us-west-2.test-gvc.cpln.local:9092'' \<and>
   BuildBootstrapServers (2 ^ 48) ''kafka'' ''aws-us-west-2'' ''test-gvc'' 1 9092 =
     Inr ''replica-0.kafka.aws-us-west-2.test-gvc.cpln.local:9092'' \<and>
   BuildBootstrapServers (2 ^ 48) ''kafka'' ''aws-us-west-2'' ''test-gvc'' 3 9092 =
     Inr ''replica-0.kafka.aws-us-west-2.test-gvc.cpln.local:9092,replica-1.kafka.aws-us-west-2.test-gvc.cpln.local:9092,replica-2.kafka.aws-us-west-2.test-gvc.cpln.local:9092'' \<and>
   BuildBootstrapServers (2 ^ 48) ''kafka'' ''aws-us-west-2'' ''test-gvc'' (2 ^ 60) 9092 =
     Inl MakesliceLenOutOfRange"
proof -
  have one: "[0..<nat (max 1 1)] = [0]"
    by (simp add: upt_rec)
  have w: "within_allocation (2 ^ 48) 1" "within_allocation (2 ^ 48) 3"
    "\<not> within_allocation (2 ^ 48) (2 ^ 60)"
    by (simp_all add: within_allocation_def)
  from BuildBootstrapServers_addresses
    [of "2 ^ 48" 1 "''kafka''" "''aws-us-west-2''" "''test-gvc''" 9092, THEN conjunct1] w(1)
  have 1: "BuildBootstrapServers (2 ^ 48) ''kafka'' ''aws-us-west-2'' ''test-gvc'' 1 9092 =
     Inr ''replica-0.kafka.aws-us-west-2.test-gvc.cpln.local:9092''"
    unfolding one by (simp add: Sprintf_replica_def itoa_def utoa.simps)
  from BuildBootstrapServers_addresses
    [of "2 ^ 48" 0 "''kafka''" "''aws-us-west-2''" "''test-gvc''" 9092, THEN conjunct2,
      THEN conjunct2, THEN conjunct1]
  have 0: "BuildBootstrapServers (2 ^ 48) ''kafka'' ''aws-us-west-2'' ''test-gvc'' 0 9092 =
     BuildBootstrapServers (2 ^ 48) ''kafka'' ''aws-us-west-2'' ''test-gvc'' 1 9092"
    by simp
  from BuildBootstrapServers_addresses
    [of "2 ^ 48" "- 1" "''kafka''" "''aws-us-west-2''" "''test-gvc''" 9092, THEN conjunct2,
      THEN conjunct2, THEN conjunct1]
  have m: "BuildBootstrapServers (2 ^ 48) ''kafka'' ''aws-us-west-2'' ''test-gvc'' (- 1) 9092 =
     BuildBootstrapServers (2 ^ 48) ''kafka'' ''aws-us-west-2'' ''test-gvc'' 1 9092"
    by simp
  from BuildBootstrapServers_addresses
    [of "2 ^ 48" 3 "''kafka''" "''aws-us-west-2''" "''test-gvc''" 9092, THEN conjunct2,
      THEN conjunct2, THEN conjunct2] w(2)
  have 3: "BuildBootstrapServers (2 ^ 48) ''kafka'' ''aws-us-west-2'' ''test-gvc'' 3 9092 =
     Inr ''replica-0.kafka.aws-us-west-2.test-gvc.cpln.local:9092,replica-1.kafka.aws-us-west-2.test-gvc.cpln.local:9092,replica-2.kafka.aws-us-west-2.test-gvc.cpln.local:9092''"
    by blast
  from BuildBootstrapServers_addresses
    [of "2 ^ 48" "2 ^ 60" "''kafka''" "''aws-us-west-2''" "''test-gvc''" 9092, THEN conjunct2,
      THEN conjunct1] w(3)
  have p: "BuildBootstrapServers (2 ^ 48) ''kafka'' ''aws-us-west-2'' ''test-gvc'' (2 ^ 60) 9092 =
     Inl MakesliceLenOutOfRange"
    by blast
  from 0 m 1 3 p show ?thesis by simp
qed

text \<open>
  The function is not total: with the allocation limit of linux/amd64, a replica
  count of \<open>2 ^ 45\<close> makes \<open>make([]string, replicaCount)\<close> panic, and no string is
  returned.
\<close>

theorem BuildBootstrapServers_panic_counterexample:
  "BuildBootstrapServers (2 ^ 48) ''kafka'' ''aws-us-west-2'' ''test-gvc'' (2 ^ 45) 9092 =
     Inl MakesliceLenOutOfRange"
  by (simp add: BuildBootstrapServers_def make_strings_def)

subsection \<open>Reading cgroup files\<close>

lemmas trim_eval =
  TrimSpace_def trim_left.simps trim_right.simps space_width_def space_width_last_def
  space_runes_def bytes_of_def

lemmas parse_eval = ParseUint_def is_digit_def digit_of_def Let_def

lemma read_max:
  "fs path = Inr data \<Longrightarrow> TrimSpace data = ''max'' \<Longrightarrow> readUint64FromFile fs path = Inr 0"
  by (simp add: readUint64FromFile_def)

lemma read_number:
  "fs path = Inr data \<Longrightarrow> TrimSpace data \<noteq> ''max'' \<Longrightarrow> ParseUint (TrimSpace data) 64 = Inr n \<Longrightarrow>
   readUint64FromFile fs path = Inr (word_of_nat n)"
  by (simp add: readUint64FromFile_def)

lemma unlimited_reads:
  "readUint64FromFile v2_unlimited_files ''/sys/fs/cgroup/memory.current'' = Inr 50"
  "readUint64FromFile v2_unlimited_files ''/sys/fs/cgroup/memory.max'' = Inr 0"
proof -
  have t: "TrimSpace ''50\<newline>'' = ''50''" "TrimSpace ''max\<newline>'' = ''max''"
    by (simp_all add: trim_eval)
  have p: "ParseUint ''50'' 64 = Inr 50"
    by (simp add: parse_eval)
  show "readUint64FromFile v2_unlimited_files ''/sys/fs/cgroup/memory.current'' = Inr 50"
    using read_number [of v2_unlimited_files _ "''50\<newline>''" 50] t p
    by (simp add: v2_unlimited_files_def files_def)
  show "readUint64FromFile v2_unlimited_files ''/sys/fs/cgroup/memory.max'' = Inr 0"
    using read_max [of v2_unlimited_files _ "''max\<newline>''"] t
    by (simp add: v2_unlimited_files_def files_def)
qed

lemma unlimited_stat:
  "readMemoryStat v2_unlimited_files ''/sys/fs/cgroup'' =
     Inr [''anon'' \<mapsto> 70, ''inactive_file'' \<mapsto> 100]"
proof -
  have s: "scan_lines_loop ''anon 70\<newline>inactive_file 100\<newline>'' [] =
      [''anon 70'', ''inactive_file 100'']"
    by code_simp
  have d: "dropCR ''anon 70'' = ''anon 70''" "dropCR ''inactive_file 100'' = ''inactive_file 100''"
    by (simp_all add: dropCR_def)
  have f: "Fields ''anon 70'' = [''anon'', ''70'']"
    "Fields ''inactive_file 100'' = [''inactive_file'', ''100'']"
    by code_simp+
  have p: "ParseUint ''70'' 64 = Inr 70" "ParseUint ''100'' 64 = Inr 100"
    by (simp_all add: parse_eval)
  show ?thesis
    by (simp add: readMemoryStat_def v2_unlimited_files_def files_def s d f p
          MaxScanTokenSize_def)
qed


lemma limited_reads:
  "readUint64FromFile v1_files ''/sys/fs/cgroup/memory/memory.usage_in_bytes'' = Inr 104857600"
  "readUint64FromFile v1_files ''/sys/fs/cgroup/memory/memory.limit_in_bytes'' = Inr 268435456"
  "readUint64FromFile v2_files ''/sys/fs/cgroup/memory.current'' = Inr 104857600"
  "readUint64FromFile v2_files ''/sys/fs/cgroup/memory.max'' = Inr 268435456"
proof -
  have t: "TrimSpace ''104857600\<newline>'' = ''104857600''"
    "TrimSpace ''268435456\<newline>'' = ''268435456''"
    by (simp_all add: trim_eval)
  have p: "ParseUint ''104857600'' 64 = Inr 104857600"
    "ParseUint ''268435456'' 64 = Inr 268435456"
    by (simp_all add: parse_eval)
  show "readUint64FromFile v1_files ''/sys/fs/cgroup/memory/memory.usage_in_bytes'' = Inr 104857600"
    using read_number [of v1_files _ "''104857600\<newline>''" 104857600] t p
    by (simp add: v1_files_def files_def)
  show "readUint64FromFile v1_files ''/sys/fs/cgroup/memory/memory.limit_in_bytes'' = Inr 268435456"
    using read_number [of v1_files _ "''268435456\<newline>''" 268435456] t p
    by (simp add: v1_files_def files_def)
  show "readUint64FromFile v2_files ''/sys/fs/cgroup/memory.current'' = Inr 104857600"
    using read_number [of v2_files _ "''104857600\<newline>''" 104857600] t p
    by (simp add: v2_files_def files_def)
  show "readUint64FromFile v2_files ''/sys/fs/cgroup/memory.max'' = Inr 268435456"
    using read_number [of v2_files _ "''268435456\<newline>''" 268435456] t p
    by (simp add: v2_files_def files_def)
qed

lemma limited_stat:
  "readMemoryStat v1_files ''/sys/fs/cgroup/memory'' =
     Inr [''rss'' \<mapsto> 52428800, ''inactive_file'' \<mapsto> 10485760]"
  "readMemoryStat v2_files ''/sys/fs/cgroup'' =
     Inr [''anon'' \<mapsto> 52428800, ''inactive_file'' \<mapsto> 10485760]"
proof -
  have s: "scan_lines_loop ''rss 52428800\<newline>inactive_file 10485760\<newline>'' [] =
      [''rss 52428800'', ''inactive_file 10485760'']"
    "scan_lines_loop ''anon 52428800\<newline>inactive_file 10485760\<newline>'' [] =
      [''anon 52428800'', ''inactive_file 10485760'']"
    by code_simp+
  have d: "dropCR ''rss 52428800'' = ''rss 52428800''"
    "dropCR ''anon 52428800'' = ''anon 52428800''"
    "dropCR ''inactive_file 10485760'' = ''inactive_file 10485760''"
    by (simp_all add: dropCR_def)
  have f: "Fields ''rss 52428800'' = [''rss'', ''52428800'']"
    "Fields ''anon 52428800'' = [''anon'', ''52428800'']"
    "Fields ''inactive_file 10485760'' = [''inactive_file'', ''10485760'']"
    by code_simp+
  have p: "ParseUint ''52428800'' 64 = Inr 52428800" "ParseUint ''10485760'' 64 = Inr 10485760"
    by (simp_all add: parse_eval)
  show "readMemoryStat v1_files ''/sys/fs/cgroup/memory'' =
     Inr [''rss'' \<mapsto> 52428800, ''inactive_file'' \<mapsto> 10485760]"
    by (simp add: readMemoryStat_def v1_files_def files_def s d f p MaxScanTokenSize_def)
  show "readMemoryStat v2_files ''/sys/fs/cgroup'' =
     Inr [''anon'' \<mapsto> 52428800, ''inactive_file'' \<mapsto> 10485760]"
    by (simp add: readMemoryStat_def v2_files_def files_def s d f p MaxScanTokenSize_def)
qed

lemma V1_reads:
  "ReadMemoryMetricsV1 F fs r = Inr m \<Longrightarrow>
   readUint64FromFile fs (basePathV1 r @ ''/memory.usage_in_bytes'') = Inr (Usage m) \<and>
   readUint64FromFile fs (basePathV1 r @ ''/memory.limit_in_bytes'') = Inr (Limit m) \<and>
   (\<exists>stats. readMemoryStat fs (basePathV1 r) = Inr stats \<and> RSS m = lookup0 stats ''rss'' \<and>
      InactiveFile m = lookup0 stats ''inactive_file'')"
  by (auto simp: ReadMemoryMetricsV1_def new_metrics_def Let_def split: sum.splits if_splits)

lemma V2_reads:
  "ReadMemoryMetricsV2 F fs r = Inr m \<Longrightarrow>
   readUint64FromFile fs (basePathV2 r @ ''/memory.current'') = Inr (Usage m) \<and>
   readUint64FromFile fs (basePathV2 r @ ''/memory.max'') = Inr (Limit m) \<and>
   (\<exists>stats. readMemoryStat fs (basePathV2 r) = Inr stats \<and> RSS m = lookup0 stats ''anon'' \<and>
      InactiveFile m = lookup0 stats ''inactive_file'')"
  by (auto simp: ReadMemoryMetricsV2_def new_metrics_def Let_def split: sum.splits if_splits)

lemma V1_derived:
  "ReadMemoryMetricsV1 F fs r = Inr m \<Longrightarrow>
   (if InactiveFile m \<le> Usage m
    then WorkingSet m = Usage m - InactiveFile m \<and>
         unat (WorkingSet m) = unat (Usage m) - unat (InactiveFile m)
    else WorkingSet m = 0) \<and>
   (if Limit m = 0
    then OOMRatio m = zero64 F \<and> OOMFloorRatio m = zero64 F
    else OOMRatio m = divide64 F (from_uint64 F (WorkingSet m)) (from_uint64 F (Limit m)) \<and>
         OOMFloorRatio m = divide64 F (from_uint64 F (RSS m)) (from_uint64 F (Limit m)))"
  by (auto simp: ReadMemoryMetricsV1_def new_metrics_def Let_def unat_sub word_gt_0
        split: sum.splits if_splits)

lemma V2_derived:
  "ReadMemoryMetricsV2 F fs r = Inr m \<Longrightarrow>
   (if InactiveFile m \<le> Usage m
    then WorkingSet m = Usage m - InactiveFile m \<and>
         unat (WorkingSet m) = unat (Usage m) - unat (InactiveFile m)
    else WorkingSet m = 0) \<and>
   (if Limit m = 0
    then OOMRatio m = zero64 F \<and> OOMFloorRatio m = zero64 F
    else OOMRatio m = divide64 F (from_uint64 F (WorkingSet m)) (from_uint64 F (Limit m)) \<and>
         OOMFloorRatio m = divide64 F (from_uint64 F (RSS m)) (from_uint64 F (Limit m)))"
  by (auto simp: ReadMemoryMetricsV2_def new_metrics_def Let_def unat_sub word_gt_0
        split: sum.splits if_splits)

lemma V1_returns:
  "readUint64FromFile fs (basePathV1 r @ ''/memory.usage_in_bytes'') = Inr usage \<Longrightarrow>
   readUint64FromFile fs (basePathV1 r @ ''/memory.limit_in_bytes'') = Inr limit \<Longrightarrow>
   readMemoryStat fs (basePathV1 r) = Inr stats \<Longrightarrow>
   \<exists>m. ReadMemoryMetricsV1 F fs r = Inr m"
  by (simp add: ReadMemoryMetricsV1_def Let_def)

lemma V2_returns:
  "readUint64FromFile fs (basePathV2 r @ ''/memory.current'') = Inr usage \<Longrightarrow>
   readUint64FromFile fs (basePathV2 r @ ''/memory.max'') = Inr limit \<Longrightarrow>
   readMemoryStat fs (basePathV2 r) = Inr stats \<Longrightarrow>
   \<exists>m. ReadMemoryMetricsV2 F fs r = Inr m"
  by (simp add: ReadMemoryMetricsV2_def Let_def)

subsection \<open>The derived memory metrics\<close>

text \<open>
  Claim C9. After a successful read by either reader, the working set is usage minus
  inactive file when usage is at least inactive file and 0 otherwise, so it is never
  negative (usage 50 and inactive file 100 give 0). A limit file whose content trims
  to \<open>max\<close> is read as 0, and the limit of the metrics is what the limit file is
  read as. With limit 0 both ratios are the zero of \<open>float64\<close>, whatever usage and
  RSS are; with another limit they are the \<open>float64\<close> quotients of the working set
  by the limit and of the RSS by the limit.
\<close>

theorem ReadMemoryMetrics_derived:
  "(ReadMemoryMetricsV1 F fs r1 = Inr m \<or> ReadMemoryMetricsV2 F fs r2 = Inr m \<longrightarrow>
      (if InactiveFile m \<le> Usage m
       then WorkingSet m = Usage m - InactiveFile m \<and>
            unat (WorkingSet m) = unat (Usage m) - unat (InactiveFile m)
       else WorkingSet m = 0) \<and>
      (if Limit m = 0
       then OOMRatio m = zero64 F \<and> OOMFloorRatio m = zero64 F
       else OOMRatio m = divide64 F (from_uint64 F (WorkingSet m)) (from_uint64 F (Limit m)) \<and>
            OOMFloorRatio m = divide64 F (from_uint64 F (RSS m)) (from_uint64 F (Limit m)))) \<and>
   (fs path = Inr data \<and> TrimSpace data = ''max'' \<longrightarrow> readUint64FromFile fs path = Inr 0) \<and>
   (ReadMemoryMetricsV1 F fs r1 = Inr m \<longrightarrow>
      readUint64FromFile fs (basePathV1 r1 @ ''/memory.usage_in_bytes'') = Inr (Usage m) \<and>
      readUint64FromFile fs (basePathV1 r1 @ ''/memory.limit_in_bytes'') = Inr (Limit m)) \<and>
   (ReadMemoryMetricsV2 F fs r2 = Inr m \<longrightarrow>
      readUint64FromFile fs (basePathV2 r2 @ ''/memory.current'') = Inr (Usage m) \<and>
      readUint64FromFile fs (basePathV2 r2 @ ''/memory.max'') = Inr (Limit m))"
  using V1_derived [of F fs r1 m] V2_derived [of F fs r2 m] V1_reads [of F fs r1 m]
    V2_reads [of F fs r2 m] read_max [of fs path data]
  by blast

theorem ReadMemoryMetrics_derived_witness:
  "(\<exists>m. ReadMemoryMetricsV2 exact_ops v2_unlimited_files \<lparr>basePathV2 = ''/sys/fs/cgroup''\<rparr> = Inr m \<and>
        Usage m = 50 \<and> InactiveFile m = 100 \<and> WorkingSet m = 0 \<and> Limit m = 0 \<and>
        OOMRatio m = 0 \<and> OOMFloorRatio m = 0) \<and>
   (\<exists>m. ReadMemoryMetricsV1 exact_ops v1_files \<lparr>basePathV1 = ''/sys/fs/cgroup/memory''\<rparr> = Inr m \<and>
        Usage m = 104857600 \<and> InactiveFile m = 10485760 \<and> WorkingSet m = 94371840 \<and>
        Limit m = 268435456 \<and> OOMRatio m = 94371840 / 268435456 \<and>
        OOMFloorRatio m = 52428800 / 268435456)"
proof
  let ?r = "\<lparr>basePathV2 = ''/sys/fs/cgroup''\<rparr>"
  obtain m where m: "ReadMemoryMetricsV2 exact_ops v2_unlimited_files ?r = Inr m"
    using V2_returns [of v2_unlimited_files ?r 50 0 _ exact_ops] unlimited_reads unlimited_stat
    by auto
  from V2_reads [OF m] unlimited_reads unlimited_stat
  have v: "Usage m = 50" "Limit m = 0" "InactiveFile m = 100"
    by (auto simp: lookup0_def)
  from ReadMemoryMetrics_derived
    [of exact_ops v2_unlimited_files "\<lparr>basePathV1 = []\<rparr>" m ?r "[]" "[]", THEN conjunct1] m
  have d: "(if InactiveFile m \<le> Usage m
       then WorkingSet m = Usage m - InactiveFile m \<and>
            unat (WorkingSet m) = unat (Usage m) - unat (InactiveFile m)
       else WorkingSet m = 0) \<and>
      (if Limit m = 0
       then OOMRatio m = zero64 exact_ops \<and> OOMFloorRatio m = zero64 exact_ops
       else OOMRatio m =
              divide64 exact_ops (from_uint64 exact_ops (WorkingSet m))
                (from_uint64 exact_ops (Limit m)) \<and>
            OOMFloorRatio m =
              divide64 exact_ops (from_uint64 exact_ops (RSS m))
                (from_uint64 exact_ops (Limit m)))"
    by blast
  then have "WorkingSet m = 0 \<and> OOMRatio m = 0 \<and> OOMFloorRatio m = 0"
    unfolding v by (simp add: exact_ops_def)
  with m v show "\<exists>m. ReadMemoryMetricsV2 exact_ops v2_unlimited_files ?r = Inr m \<and>
        Usage m = 50 \<and> InactiveFile m = 100 \<and> WorkingSet m = 0 \<and> Limit m = 0 \<and>
        OOMRatio m = 0 \<and> OOMFloorRatio m = 0"
    by blast
next
  let ?r = "\<lparr>basePathV1 = ''/sys/fs/cgroup/memory''\<rparr>"
  obtain m where m: "ReadMemoryMetricsV1 exact_ops v1_files ?r = Inr m"
    using V1_returns [of v1_files ?r 104857600 268435456 _ exact_ops] limited_reads limited_stat
    by auto
  from V1_reads [OF m] limited_reads limited_stat
  have v: "Usage m = 104857600" "Limit m = 268435456" "InactiveFile m = 10485760"
    "RSS m = 52428800"
    by (auto simp: lookup0_def)
  from ReadMemoryMetrics_derived
    [of exact_ops v1_files ?r m "\<lparr>basePathV2 = []\<rparr>" "[]" "[]", THEN conjunct1] m
  have d: "(if InactiveFile m \<le> Usage m
       then WorkingSet m = Usage m - InactiveFile m \<and>
            unat (WorkingSet m) = unat (Usage m) - unat (InactiveFile m)
       else WorkingSet m = 0) \<and>
      (if Limit m = 0
       then OOMRatio m = zero64 exact_ops \<and> OOMFloorRatio m = zero64 exact_ops
       else OOMRatio m =
              divide64 exact_ops (from_uint64 exact_ops (WorkingSet m))
                (from_uint64 exact_ops (Limit m)) \<and>
            OOMFloorRatio m =
              divide64 exact_ops (from_uint64 exact_ops (RSS m))
                (from_uint64 exact_ops (Limit m)))"
    by blast
  then have ws: "WorkingSet m = 94371840"
    unfolding v by simp
  from d have "OOMRatio m = 94371840 / 268435456 \<and> OOMFloorRatio m = 52428800 / 268435456"
    unfolding v ws by (simp add: exact_ops_def)
  with ws have "WorkingSet m = 94371840 \<and> OOMRatio m = 94371840 / 268435456 \<and>
        OOMFloorRatio m = 52428800 / 268435456"
    by simp
  with m v show "\<exists>m. ReadMemoryMetricsV1 exact_ops v1_files ?r = Inr m \<and>
        Usage m = 104857600 \<and> InactiveFile m = 10485760 \<and> WorkingSet m = 94371840 \<and>
        Limit m = 268435456 \<and> OOMRatio m = 94371840 / 268435456 \<and>
        OOMFloorRatio m = 52428800 / 268435456"
    by blast
qed

subsection \<open>The two readers agree\<close>

text \<open>
  Claim C10. When the files of a cgroup v1 directory and of a cgroup v2 directory are
  read as the same usage and the same limit, and their statistics agree up to the
  name of the key, \<open>rss\<close> in v1 and \<open>anon\<close> in v2 having the same value and
  \<open>inactive_file\<close> too, the two readers return the same \<open>MemoryMetrics\<close>: the same
  usage, limit, RSS and inactive file, and with them the same working set and the
  same two ratios.
\<close>

theorem readers_agree:
  assumes "readUint64FromFile fs1 (basePathV1 r1 @ ''/memory.usage_in_bytes'') = Inr usage"
    and "readUint64FromFile fs2 (basePathV2 r2 @ ''/memory.current'') = Inr usage"
    and "readUint64FromFile fs1 (basePathV1 r1 @ ''/memory.limit_in_bytes'') = Inr limit"
    and "readUint64FromFile fs2 (basePathV2 r2 @ ''/memory.max'') = Inr limit"
    and "readMemoryStat fs1 (basePathV1 r1) = Inr stats1"
    and "readMemoryStat fs2 (basePathV2 r2) = Inr stats2"
    and "lookup0 stats1 ''rss'' = lookup0 stats2 ''anon''"
    and "lookup0 stats1 ''inactive_file'' = lookup0 stats2 ''inactive_file''"
  shows
    "ReadMemoryMetricsV1 F fs1 r1 = ReadMemoryMetricsV2 F fs2 r2 \<and>
     (\<exists>m. ReadMemoryMetricsV2 F fs2 r2 = Inr m \<and> Usage m = usage \<and> Limit m = limit \<and>
        RSS m = lookup0 stats2 ''anon'' \<and> InactiveFile m = lookup0 stats2 ''inactive_file'')"
proof -
  have eq: "ReadMemoryMetricsV1 F fs1 r1 = ReadMemoryMetricsV2 F fs2 r2"
    using assms by (simp add: ReadMemoryMetricsV1_def ReadMemoryMetricsV2_def Let_def)
  obtain m where m: "ReadMemoryMetricsV2 F fs2 r2 = Inr m"
    using V2_returns [OF assms(2,4,6)] by blast
  from V2_reads [OF m] assms(2,4,6)
  have "Usage m = usage \<and> Limit m = limit \<and> RSS m = lookup0 stats2 ''anon'' \<and>
      InactiveFile m = lookup0 stats2 ''inactive_file''"
    by auto
  with eq m show ?thesis by blast
qed

theorem readers_agree_witness:
  "ReadMemoryMetricsV1 exact_ops v1_files \<lparr>basePathV1 = ''/sys/fs/cgroup/memory''\<rparr> =
     ReadMemoryMetricsV2 exact_ops v2_files \<lparr>basePathV2 = ''/sys/fs/cgroup''\<rparr> \<and>
   (\<exists>m. ReadMemoryMetricsV2 exact_ops v2_files \<lparr>basePathV2 = ''/sys/fs/cgroup''\<rparr> = Inr m \<and>
      Usage m = 104857600 \<and> Limit m = 268435456 \<and> RSS m = 52428800 \<and>
      InactiveFile m = 10485760)"
proof -
  let ?r1 = "\<lparr>basePathV1 = ''/sys/fs/cgroup/memory''\<rparr>"
  let ?r2 = "\<lparr>basePathV2 = ''/sys/fs/cgroup''\<rparr>"
  let ?s1 = "[''rss'' \<mapsto> 52428800, ''inactive_file'' \<mapsto> 10485760] :: string \<rightharpoonup> uint64"
  let ?s2 = "[''anon'' \<mapsto> 52428800, ''inactive_file'' \<mapsto> 10485760] :: string \<rightharpoonup> uint64"
  have l: "lookup0 ?s1 ''rss'' = lookup0 ?s2 ''anon''"
    "lookup0 ?s1 ''inactive_file'' = lookup0 ?s2 ''inactive_file''"
    "lookup0 ?s2 ''anon'' = 52428800" "lookup0 ?s2 ''inactive_file'' = 10485760"
    by (simp_all add: lookup0_def)
  have "readUint64FromFile v1_files (basePathV1 ?r1 @ ''/memory.usage_in_bytes'') = Inr 104857600"
    and "readUint64FromFile v2_files (basePathV2 ?r2 @ ''/memory.current'') = Inr 104857600"
    and "readUint64FromFile v1_files (basePathV1 ?r1 @ ''/memory.limit_in_bytes'') = Inr 268435456"
    and "readUint64FromFile v2_files (basePathV2 ?r2 @ ''/memory.max'') = Inr 268435456"
    and "readMemoryStat v1_files (basePathV1 ?r1) = Inr ?s1"
    and "readMemoryStat v2_files (basePathV2 ?r2) = Inr ?s2"
    using limited_reads limited_stat by simp_all
  from readers_agree [OF this l(1,2), of exact_ops] show ?thesis
    unfolding l(3,4) .
qed

end
